theory Spec2Isabelle
  imports Complex_Main "HOL-Library.AList"
begin

section \<open>JavaScript strings\<close>

text \<open>
  A JavaScript string is a sequence of UTF-16 code units.  It is modelled as a list of
  integers, one per code unit; \<open>js\<close> embeds a literal of printable ASCII characters.
  The few non-ASCII literals of the sources are written with their code units.
\<close>

type_synonym jsstring = "int list"

definition js :: "string \<Rightarrow> jsstring" where
  "js s = map of_char s"

definition is_upper :: "int \<Rightarrow> bool" where
  "is_upper c = (65 \<le> c \<and> c \<le> 90)"

definition is_lower :: "int \<Rightarrow> bool" where
  "is_lower c = (97 \<le> c \<and> c \<le> 122)"

definition is_digit :: "int \<Rightarrow> bool" where
  "is_digit c = (48 \<le> c \<and> c \<le> 57)"

text \<open>
  \<open>String.prototype.toLowerCase\<close> on the ASCII and Latin-1 letters (code units below
  256).  Other code units are left as they are; JavaScript also maps the capital letters
  beyond Latin-1, which the model does not follow.
\<close>

definition lower_char :: "int \<Rightarrow> int" where
  "lower_char c =
     (if is_upper c \<or> (192 \<le> c \<and> c \<le> 222 \<and> c \<noteq> 215) then c + 32 else c)"

definition toLowerCase :: "jsstring \<Rightarrow> jsstring" where
  "toLowerCase s = map lower_char s"

text \<open>
  The canonical form of a code unit under the \<open>i\<close> flag of a regular expression
  (upper case; a non-ASCII code unit is never identified with an ASCII one).
\<close>

definition canon_char :: "int \<Rightarrow> int" where
  "canon_char c =
     (if is_lower c \<or> (224 \<le> c \<and> c \<le> 254 \<and> c \<noteq> 247) then c - 32 else c)"

text \<open>White space and line terminators, as \<open>\s\<close> and \<open>trim\<close> see them.\<close>

definition is_space :: "int \<Rightarrow> bool" where
  "is_space c =
     ((9 \<le> c \<and> c \<le> 13) \<or> c = 32 \<or> c = 160 \<or> c = 5760 \<or> (8192 \<le> c \<and> c \<le> 8202)
      \<or> c = 8232 \<or> c = 8233 \<or> c = 8239 \<or> c = 8287 \<or> c = 12288 \<or> c = 65279)"

definition trim :: "jsstring \<Rightarrow> jsstring" where
  "trim s = rev (dropWhile is_space (rev (dropWhile is_space s)))"

fun starts_with :: "jsstring \<Rightarrow> jsstring \<Rightarrow> bool" where
  "starts_with t [] = True"
| "starts_with [] (w # ws) = False"
| "starts_with (c # t) (w # ws) = (c = w \<and> starts_with t ws)"

text \<open>\<open>t.includes(w)\<close>: \<open>w\<close> occurs in \<open>t\<close> as a contiguous substring.\<close>

fun js_includes :: "jsstring \<Rightarrow> jsstring \<Rightarrow> bool" where
  "js_includes [] w = (w = [])"
| "js_includes (c # t) w = (starts_with (c # t) w \<or> js_includes t w)"

text \<open>\<open>xs.join(sep)\<close>.\<close>

fun join :: "jsstring \<Rightarrow> jsstring list \<Rightarrow> jsstring" where
  "join sep [] = []"
| "join sep [x] = x"
| "join sep (x # y # ys) = x @ sep @ join sep (y # ys)"

section \<open>Regular expressions\<close>

text \<open>
  The regular-expression literals of the sources are written as terms of \<open>regex\<close>
  and run by a backtracking matcher that follows the ECMAScript semantics: alternatives
  are tried from left to right, quantifiers are greedy, an iteration of a satisfied
  quantifier that consumes nothing is rejected, and the captures of a quantified group
  are reset at each iteration.  \<open>rmatch\<close> returns the states reachable from a state, in
  the order in which a backtracking engine would find them, so the head of the list is
  the match the engine reports.
\<close>

datatype regex =
    Lit int
  | Cls bool "(int \<times> int) list"
  | Dot
  | Eps
  | Seq regex regex
  | Alt regex regex
  | Rep nat "nat option" regex
  | Grp nat regex
  | Bol
  | WordB

record mstate =
  prev :: "int option"
  rest :: jsstring
  consumed :: jsstring
  caps :: "(nat \<times> jsstring) list"

definition is_word_char :: "int \<Rightarrow> bool" where
  "is_word_char c = (is_lower c \<or> is_upper c \<or> is_digit c \<or> c = 95)"

definition in_ranges :: "(int \<times> int) list \<Rightarrow> int \<Rightarrow> bool" where
  "in_ranges rs c = list_ex (\<lambda>(lo, hi). lo \<le> c \<and> c \<le> hi) rs"

definition cls_match :: "bool \<Rightarrow> bool \<Rightarrow> (int \<times> int) list \<Rightarrow> int \<Rightarrow> bool" where
  "cls_match ic neg rs c =
     (let hit = (in_ranges rs c \<or>
                 (ic \<and> (in_ranges rs (lower_char c) \<or> in_ranges rs (canon_char c))))
      in if neg then \<not> hit else hit)"

definition lit_match :: "bool \<Rightarrow> int \<Rightarrow> int \<Rightarrow> bool" where
  "lit_match ic a c = (if ic then canon_char a = canon_char c else a = c)"

definition step1 :: "(int \<Rightarrow> bool) \<Rightarrow> mstate \<Rightarrow> mstate list" where
  "step1 P s =
     (case rest s of
        [] \<Rightarrow> []
      | c # cs \<Rightarrow>
          if P c then [s\<lparr>prev := Some c, rest := cs, consumed := c # consumed s\<rparr>] else [])"

definition at_word_boundary :: "mstate \<Rightarrow> bool" where
  "at_word_boundary s =
     ((case prev s of None \<Rightarrow> False | Some c \<Rightarrow> is_word_char c)
      \<noteq> (case rest s of [] \<Rightarrow> False | c # cs \<Rightarrow> is_word_char c))"

primrec groups :: "regex \<Rightarrow> nat list" where
  "groups (Lit c) = []"
| "groups (Cls neg rs) = []"
| "groups Dot = []"
| "groups Eps = []"
| "groups (Seq a b) = groups a @ groups b"
| "groups (Alt a b) = groups a @ groups b"
| "groups (Rep mn mx a) = groups a"
| "groups (Grp k a) = k # groups a"
| "groups Bol = []"
| "groups WordB = []"

definition dec_max :: "nat option \<Rightarrow> nat option" where
  "dec_max mx = (case mx of None \<Rightarrow> None | Some k \<Rightarrow> Some (k - 1))"

text \<open>
  One iteration of a quantified body \<open>f\<close> from the state \<open>s\<close>: every result comes with
  the flag "this iteration consumed input".
\<close>

definition iter :: "(mstate \<Rightarrow> mstate list) \<Rightarrow> nat list \<Rightarrow> mstate \<Rightarrow> (bool \<times> mstate) list" where
  "iter f gs s =
     map (\<lambda>s'. (consumed s' \<noteq> [], s'\<lparr>consumed := consumed s' @ consumed s\<rparr>))
       (f (s\<lparr>consumed := [], caps := filter (\<lambda>(k, v). k \<notin> set gs) (caps s)\<rparr>))"

text \<open>
  The iterations after the minimum is reached.  Each of them consumes at least one code
  unit, so the input that is left bounds their number: it is the fuel of the recursion.
\<close>

fun rep_star :: "(mstate \<Rightarrow> mstate list) \<Rightarrow> nat list \<Rightarrow> nat option \<Rightarrow> jsstring \<Rightarrow> mstate \<Rightarrow> mstate list" where
  "rep_star f gs mx [] s = [s]"
| "rep_star f gs mx (u # fuel) s =
     (if mx = Some 0 then [s]
      else concat (map (\<lambda>(p, s'). rep_star f gs (dec_max mx) fuel s')
                    (filter fst (iter f gs s))) @ [s])"

fun rep_min :: "(mstate \<Rightarrow> mstate list) \<Rightarrow> nat list \<Rightarrow> nat \<Rightarrow> nat option \<Rightarrow> mstate \<Rightarrow> mstate list" where
  "rep_min f gs 0 mx s = rep_star f gs mx (rest s) s"
| "rep_min f gs (Suc mn) mx s =
     (if mx = Some 0 then [s]
      else concat (map (\<lambda>(p, s'). rep_min f gs mn (dec_max mx) s') (iter f gs s)))"

primrec rmatch :: "bool \<Rightarrow> regex \<Rightarrow> mstate \<Rightarrow> mstate list" where
  "rmatch ic (Lit a) = step1 (lit_match ic a)"
| "rmatch ic (Cls neg rs) = step1 (cls_match ic neg rs)"
| "rmatch ic Dot = step1 (\<lambda>c. c \<noteq> 10 \<and> c \<noteq> 13 \<and> c \<noteq> 8232 \<and> c \<noteq> 8233)"
| "rmatch ic Eps = (\<lambda>s. [s])"
| "rmatch ic (Seq a b) = (\<lambda>s. concat (map (rmatch ic b) (rmatch ic a s)))"
| "rmatch ic (Alt a b) = (\<lambda>s. rmatch ic a s @ rmatch ic b s)"
| "rmatch ic (Rep mn mx a) = rep_min (rmatch ic a) (groups a) mn mx"
| "rmatch ic (Grp k a) =
     (\<lambda>s. map (\<lambda>s'. s'\<lparr>consumed := consumed s' @ consumed s,
                         caps := AList.update k (rev (consumed s')) (caps s')\<rparr>)
             (rmatch ic a (s\<lparr>consumed := []\<rparr>)))"
| "rmatch ic Bol = (\<lambda>s. if prev s = None then [s] else [])"
| "rmatch ic WordB = (\<lambda>s. if at_word_boundary s then [s] else [])"

text \<open>The result of a successful match: what precedes it, its text, its groups, what follows.\<close>

record rmatch_result =
  m_pre :: jsstring
  m_text :: jsstring
  m_groups :: "(nat \<times> jsstring) list"
  m_prev :: "int option"
  m_rest :: jsstring

text \<open>The leftmost match at or after the current position (\<open>skipped\<close> is what was passed over).\<close>

fun exec_from :: "bool \<Rightarrow> regex \<Rightarrow> jsstring \<Rightarrow> int option \<Rightarrow> jsstring \<Rightarrow> rmatch_result option" where
  "exec_from ic r skipped p [] =
     (case rmatch ic r \<lparr>prev = p, rest = [], consumed = [], caps = []\<rparr> of
        [] \<Rightarrow> None
      | s # ss \<Rightarrow> Some \<lparr>m_pre = rev skipped, m_text = rev (consumed s), m_groups = caps s,
                         m_prev = prev s, m_rest = rest s\<rparr>)"
| "exec_from ic r skipped p (c # cs) =
     (case rmatch ic r \<lparr>prev = p, rest = c # cs, consumed = [], caps = []\<rparr> of
        [] \<Rightarrow> exec_from ic r (c # skipped) (Some c) cs
      | s # ss \<Rightarrow> Some \<lparr>m_pre = rev skipped, m_text = rev (consumed s), m_groups = caps s,
                         m_prev = prev s, m_rest = rest s\<rparr>)"

text \<open>\<open>text.match(r)\<close> for a regular expression without the \<open>g\<close> flag.\<close>

definition regex_exec :: "bool \<Rightarrow> regex \<Rightarrow> jsstring \<Rightarrow> rmatch_result option" where
  "regex_exec ic r text = exec_from ic r [] None text"

text \<open>\<open>r.test(text)\<close>.\<close>

definition regex_test :: "bool \<Rightarrow> regex \<Rightarrow> jsstring \<Rightarrow> bool" where
  "regex_test ic r text = (regex_exec ic r text \<noteq> None)"

text \<open>
  \<open>text.match(r)\<close> for a regular expression with the \<open>g\<close> flag: the texts of the successive
  matches, each search starting where the previous match ended (one code unit further
  after an empty match).  Every round advances, so the length of the text bounds them.
\<close>

fun match_all_from :: "bool \<Rightarrow> regex \<Rightarrow> nat \<Rightarrow> int option \<Rightarrow> jsstring \<Rightarrow> jsstring list" where
  "match_all_from ic r 0 p s = []"
| "match_all_from ic r (Suc fuel) p s =
     (case exec_from ic r [] p s of
        None \<Rightarrow> []
      | Some m \<Rightarrow>
          if m_text m = [] then
            (case m_rest m of
               [] \<Rightarrow> [m_text m]
             | c # cs \<Rightarrow> m_text m # match_all_from ic r fuel (Some c) cs)
          else m_text m # match_all_from ic r fuel (m_prev m) (m_rest m))"

definition match_all :: "bool \<Rightarrow> regex \<Rightarrow> jsstring \<Rightarrow> jsstring list" where
  "match_all ic r text = match_all_from ic r (Suc (length text)) None text"

text \<open>\<open>text.replace(r, '')\<close> for a regular expression without the \<open>g\<close> flag.\<close>

definition remove_first :: "bool \<Rightarrow> regex \<Rightarrow> jsstring \<Rightarrow> jsstring" where
  "remove_first ic r text =
     (case regex_exec ic r text of None \<Rightarrow> text | Some m \<Rightarrow> m_pre m @ m_rest m)"

text \<open>The text of group \<open>k\<close> of a match; \<open>None\<close> is JavaScript's \<open>undefined\<close>.\<close>

definition group :: "rmatch_result \<Rightarrow> nat \<Rightarrow> jsstring option" where
  "group m k = map_of (m_groups m) k"

subsection \<open>Notation for regular-expression literals\<close>

fun lits :: "string \<Rightarrow> regex" where
  "lits [] = Eps"
| "lits [c] = Lit (of_char c)"
| "lits (c # cs) = Seq (Lit (of_char c)) (lits cs)"

fun seqs :: "regex list \<Rightarrow> regex" where
  "seqs [] = Eps"
| "seqs [r] = r"
| "seqs (r # rs) = Seq r (seqs rs)"

fun alts :: "regex list \<Rightarrow> regex" where
  "alts [] = Eps"
| "alts [r] = r"
| "alts (r # rs) = Alt r (alts rs)"

definition words :: "string list \<Rightarrow> regex" where
  "words ws = alts (map lits ws)"

definition Star :: "regex \<Rightarrow> regex" where
  "Star r = Rep 0 None r"

definition Plus :: "regex \<Rightarrow> regex" where
  "Plus r = Rep 1 None r"

definition Opt :: "regex \<Rightarrow> regex" where
  "Opt r = Rep 0 (Some 1) r"

definition rng :: "char \<Rightarrow> char \<Rightarrow> (int \<times> int) list" where
  "rng a b = [(of_char a, of_char b)]"

definition chars :: "string \<Rightarrow> (int \<times> int) list" where
  "chars s = map (\<lambda>c. (of_char c, of_char c)) s"

text \<open>The class escapes \<open>\d\<close> and \<open>\s\<close> as range lists.\<close>

definition digit_ranges :: "(int \<times> int) list" where
  "digit_ranges = [(48, 57)]"

definition space_ranges :: "(int \<times> int) list" where
  "space_ranges =
     [(9, 13), (32, 32), (160, 160), (5760, 5760), (8192, 8202), (8232, 8233),
      (8239, 8239), (8287, 8287), (12288, 12288), (65279, 65279)]"

definition Digit :: regex where
  "Digit = Cls False digit_ranges"

definition Space :: regex where
  "Space = Cls False space_ranges"

section \<open>Data model (types/email.ts)\<close>

text \<open>
  Of an email the analyzers read the sender, the subject and the body; the sender field is
  called \<open>from\<close> in the source.
\<close>

record Email =
  from_field :: jsstring
  subject :: jsstring
  body :: jsstring

record SpamFeatures =
  senderDomainMismatch :: bool
  suspiciousLinks :: bool
  urgencyWords :: bool
  grammarIssues :: bool
  knownSpamPatterns :: bool

record SpamResult =
  score :: rat
  isSpam :: bool
  reasons :: "jsstring list"
  features :: SpamFeatures

section \<open>Spam / phishing scorer (agents/spam-detector.ts)\<close>

record Weights =
  w_senderDomainMismatch :: rat
  w_suspiciousLinks :: rat
  w_urgencyWords :: rat
  w_grammarIssues :: rat
  w_knownSpamPatterns :: rat

definition WEIGHTS :: Weights where
  "WEIGHTS =
     \<lparr>w_senderDomainMismatch = 0.30,
      w_suspiciousLinks = 0.25,
      w_urgencyWords = 0.20,
      w_grammarIssues = 0.10,
      w_knownSpamPatterns = 0.35\<rparr>"

definition URGENCY_WORDS :: "jsstring list" where
  "URGENCY_WORDS = map js
     [''urgent'', ''immediately'', ''act now'', ''action required'',
      ''verify your account'', ''confirm your identity'', ''suspended'',
      ''limited time'', ''expires'', ''within 24 hours'', ''within 48 hours'',
      ''click here immediately'', ''respond immediately'', ''don't delay'',
      ''final notice'', ''last chance'', ''account will be closed'',
      ''verify now'', ''confirm now'', ''update now'',
      ''you have won'', ''been selected'', ''claim your'',
      ''send your bank'', ''bank details'', ''winner'']"

text \<open>All of the following tables are used with the \<open>i\<close> flag.\<close>

definition SPAM_PATTERNS :: "regex list" where
  "SPAM_PATTERNS =
     [seqs [lits ''congratulations'', Star Dot, lits ''won''],
      seqs [lits ''you'', Grp 1 (Alt (Seq (Lit 39) (lits ''ve'')) (lits '' have'')),
            lits '' been selected''],
      seqs [lits ''claim your '', Grp 1 (words [''prize'', ''reward'', ''money''])],
      lits ''nigerian prince'',
      lits ''wire transfer'',
      seqs [lits ''inheritance'', Star Dot, lits ''million''],
      lits ''lottery winner'',
      seqs [lits ''click '', Grp 1 (words [''here'', ''below'']), lits '' to '',
            Grp 2 (words [''verify'', ''confirm'', ''update''])],
      seqs [lits ''your account '', Grp 1 (words [''has been'', ''will be'']), lits '' '',
            Grp 2 (words [''suspended'', ''terminated'', ''closed''])],
      seqs [lits ''password'', Star Dot, lits ''expired''],
      seqs [lits ''unusual activity'', Star Dot, lits ''account''],
      seqs [lits ''we detected'', Star Dot, lits ''suspicious''],
      seqs [lits ''dear '', Opt (Grp 1 (lits ''valued '')), lits ''customer''],
      seqs [lits ''dear '', Grp 1 (words [''sir'', ''madam'', ''user''])],
      lits ''you have won'',
      lits ''claim your prize'',
      seqs [lits ''send'', Opt (Grp 1 (lits ''ing'')), lits '' your bank details''],
      lits ''lottery'',
      seqs [lits ''million '', Grp 1 (words [''dollars'', ''usd'', ''$''])],
      lits ''prince'',
      seqs [lits ''don'', Opt (Lit 39), lits ''t delay''],
      lits ''account will be closed'']"

definition SUSPICIOUS_URL_PATTERNS :: "regex list" where
  "SUSPICIOUS_URL_PATTERNS =
     [lits ''bit.ly'',
      lits ''tinyurl.com'',
      lits ''goo.gl'',
      lits ''t.co'',
      lits ''ow.ly'',
      lits ''is.gd'',
      lits ''buff.ly'',
      lits ''adf.ly'',
      lits ''tiny.cc'',
      seqs [lits ''http'', Opt (lits ''s''), lits ''://'',
            Rep 1 (Some 3) Digit, lits ''.'', Rep 1 (Some 3) Digit, lits ''.'',
            Rep 1 (Some 3) Digit, lits ''.'', Rep 1 (Some 3) Digit],
      seqs [lits ''paypa'', Cls False (chars ''l1''), Star Dot, lits ''.com''],
      seqs [lits ''amaz'', Cls False (chars ''o0''), lits ''n'', Star Dot, lits ''.com''],
      seqs [lits ''g'', Cls False (chars ''o0''), Cls False (chars ''o0''), lits ''gle'',
            Star Dot, lits ''.com''],
      seqs [lits ''micr'', Cls False (chars ''o0''), lits ''s'', Cls False (chars ''o0''),
            lits ''ft'', Star Dot, lits ''.com''],
      seqs [lits ''app'', Cls False (chars ''l1''), lits ''e'', Star Dot, lits ''.com'']]"

definition GRAMMAR_ISSUES :: "regex list" where
  "GRAMMAR_ISSUES =
     [seqs [WordB, Grp 1 (words [''kindly'', ''please kindly'']), WordB],
      seqs [WordB, Grp 1 (words [''revert back'', ''reply back'']), WordB],
      seqs [WordB, Grp 1 (lits ''do the needful''), WordB],
      seqs [WordB, Grp 1 (lits ''your good self''), WordB],
      seqs [lits ''$'', Star Space, Plus Digit, Star Dot, Star Space,
            Grp 1 (words [''USD'', ''dollars''])]]"

text \<open>\<open>/@([a-zA-Z0-9.-]+)/\<close>\<close>

definition senderDomainRegex :: regex where
  "senderDomainRegex =
     seqs [lits ''@'', Grp 1 (Plus (Cls False (rng CHR ''a'' CHR ''z'' @ rng CHR ''A'' CHR ''Z'' @
                                                rng CHR ''0'' CHR ''9'' @ chars ''.-'')))]"

definition extractSenderDomain :: "jsstring \<Rightarrow> jsstring option" where
  "extractSenderDomain email =
     (case regex_exec False senderDomainRegex email of
        None \<Rightarrow> None
      | Some m \<Rightarrow> map_option toLowerCase (group m 1))"

text \<open>\<open>/^([^<]+)</\<close>\<close>

definition displayNameRegex :: regex where
  "displayNameRegex = seqs [Bol, Grp 1 (Plus (Cls True (chars ''<''))), lits ''<'']"

definition extractDisplayName :: "jsstring \<Rightarrow> jsstring option" where
  "extractDisplayName sender =
     (case regex_exec False displayNameRegex sender of
        None \<Rightarrow> None
      | Some m \<Rightarrow> map_option (\<lambda>g. toLowerCase (trim g)) (group m 1))"

text \<open>\<open>/([a-zA-Z0-9]+)\.(com|org|net|io)/\<close>\<close>

definition domainInNameRegex :: regex where
  "domainInNameRegex =
     seqs [Grp 1 (Plus (Cls False (rng CHR ''a'' CHR ''z'' @ rng CHR ''A'' CHR ''Z'' @
                                    rng CHR ''0'' CHR ''9''))),
           lits ''.'', Grp 2 (words [''com'', ''org'', ''net'', ''io''])]"

definition brands :: "jsstring list" where
  "brands = map js [''paypal'', ''amazon'', ''google'', ''microsoft'', ''apple'', ''netflix'', ''bank'']"

text \<open>A string is falsy when it is \<open>null\<close> or empty.\<close>

definition truthy :: "jsstring option \<Rightarrow> bool" where
  "truthy v = (case v of None \<Rightarrow> False | Some s \<Rightarrow> s \<noteq> [])"

definition checkSenderDomainMismatch :: "Email \<Rightarrow> bool" where
  "checkSenderDomainMismatch email =
     (case (extractSenderDomain (from_field email), extractDisplayName (from_field email)) of
        (Some domain, Some displayName) \<Rightarrow>
          if domain = [] \<or> displayName = [] then False
          else if (case regex_exec False domainInNameRegex displayName of
                     None \<Rightarrow> False
                   | Some m \<Rightarrow>
                       (case group m 1 of
                          None \<Rightarrow> \<not> js_includes domain (js ''undefined'')
                        | Some g \<Rightarrow> \<not> js_includes domain g)) then True
          else list_ex (\<lambda>brand. js_includes displayName brand \<and> \<not> js_includes domain brand) brands
      | _ \<Rightarrow> False)"

text \<open>The text both the link check and the phrase checks read: \<open>`${subject} ${body}`\<close>.\<close>

definition subject_body :: "Email \<Rightarrow> jsstring" where
  "subject_body email = subject email @ js '' '' @ body email"

text \<open>\<open>/https?:\/\/[^\s<>"]+/gi\<close>\<close>

definition urlRegex :: regex where
  "urlRegex =
     seqs [lits ''http'', Opt (lits ''s''), lits ''://'',
           Plus (Cls True (space_ranges @ chars ''<>'' @ [(34, 34)]))]"

text \<open>
  The three checks that return an object \<open>{ found, ... }\<close> return a pair here: the
  flag \<open>found\<close> and the list collected.
\<close>

definition checkSuspiciousLinks :: "Email \<Rightarrow> bool \<times> jsstring list" where
  "checkSuspiciousLinks email =
     (let urls = match_all True urlRegex (subject_body email);
          suspiciousLinks =
            filter (\<lambda>url. list_ex (\<lambda>pattern. regex_test True pattern url) SUSPICIOUS_URL_PATTERNS) urls
      in (suspiciousLinks \<noteq> [], suspiciousLinks))"

definition checkUrgencyWords :: "Email \<Rightarrow> bool \<times> jsstring list" where
  "checkUrgencyWords email =
     (let text = toLowerCase (subject_body email);
          foundWords = filter (\<lambda>word. js_includes text (toLowerCase word)) URGENCY_WORDS
      in (foundWords \<noteq> [], foundWords))"

definition checkGrammarIssues :: "Email \<Rightarrow> bool" where
  "checkGrammarIssues email =
     list_ex (\<lambda>pattern. regex_test True pattern (subject_body email)) GRAMMAR_ISSUES"

definition checkKnownSpamPatterns :: "Email \<Rightarrow> bool \<times> regex list" where
  "checkKnownSpamPatterns email =
     (let matchedPatterns =
            filter (\<lambda>pattern. regex_test True pattern (subject_body email)) SPAM_PATTERNS
      in (matchedPatterns \<noteq> [], matchedPatterns))"

text \<open>
  One \<open>if\<close> block of \<open>detectSpam\<close>: when the feature holds, add its weight to the score
  and push its reason.
\<close>

definition add_feature :: "bool \<Rightarrow> rat \<Rightarrow> jsstring \<Rightarrow> rat \<times> jsstring list \<Rightarrow> rat \<times> jsstring list" where
  "add_feature f w reason acc = (if f then (fst acc + w, snd acc @ [reason]) else acc)"

definition extract_features :: "Email \<Rightarrow> SpamFeatures" where
  "extract_features email =
     \<lparr>senderDomainMismatch = checkSenderDomainMismatch email,
      suspiciousLinks = fst (checkSuspiciousLinks email),
      urgencyWords = fst (checkUrgencyWords email),
      grammarIssues = checkGrammarIssues email,
      knownSpamPatterns = fst (checkKnownSpamPatterns email)\<rparr>"

definition detectSpam :: "Email \<Rightarrow> SpamResult" where
  "detectSpam email =
     (let features = extract_features email;
          acc0 = (0, []);
          acc1 = add_feature (senderDomainMismatch features) (w_senderDomainMismatch WEIGHTS)
                   (js ''Sender domain mismatch detected'') acc0;
          acc2 = add_feature (suspiciousLinks features) (w_suspiciousLinks WEIGHTS)
                   (js ''Suspicious links found: '' @
                      join (js '', '') (take 2 (snd (checkSuspiciousLinks email)))) acc1;
          acc3 = add_feature (urgencyWords features) (w_urgencyWords WEIGHTS)
                   (js ''Urgency language detected: '' @
                      join (js '', '') (take 3 (snd (checkUrgencyWords email)))) acc2;
          acc4 = add_feature (grammarIssues features) (w_grammarIssues WEIGHTS)
                   (js ''Common spam grammar patterns detected'') acc3;
          acc5 = add_feature (knownSpamPatterns features) (w_knownSpamPatterns WEIGHTS)
                   (js ''Known spam/phishing patterns detected'') acc4
      in \<lparr>score = min (fst acc5) 1,
          isSpam = (fst acc5 \<ge> 0.5),
          reasons = snd acc5,
          features = features\<rparr>)"

section \<open>Numbers and dates of the host\<close>

text \<open>
  Decimal rendering of an integer, as a template literal renders an integral number.
\<close>

function digits_of :: "int \<Rightarrow> jsstring" where
  "digits_of n = (if n < 10 then [48 + n] else digits_of (n div 10) @ [48 + n mod 10])"
  by pat_completeness auto
termination
  by (relation "measure nat") auto

definition show_int :: "int \<Rightarrow> jsstring" where
  "show_int i = (if i < 0 then 45 # digits_of (- i) else digits_of i)"

text \<open>A non-negative integer in at least \<open>w\<close> digits, with leading zeros.\<close>

definition pad :: "nat \<Rightarrow> int \<Rightarrow> jsstring" where
  "pad w i = (let ds = digits_of i in replicate (w - length ds) 48 @ ds)"

text \<open>\<open>parseInt(ds, 10)\<close> on a string of decimal digits.\<close>

definition parseInt :: "jsstring \<Rightarrow> int" where
  "parseInt ds = foldl (\<lambda>a d. a * 10 + (d - 48)) 0 ds"

text \<open>\<open>s.substring(a, b)\<close> for \<open>a \<le> b\<close>.\<close>

definition substring :: "nat \<Rightarrow> nat \<Rightarrow> jsstring \<Rightarrow> jsstring" where
  "substring a b s = take (b - a) (drop a s)"

text \<open>
  A \<open>Date\<close> object holds a time value, an integral number of milliseconds since the epoch
  of absolute value at most \<open>8.64e15\<close>, or is invalid (\<open>None\<close>); the same type models
  the number \<open>getTime()\<close> returns, with \<open>None\<close> for \<open>NaN\<close>.  \<open>new Date(n)\<close> is \<open>time_clip\<close>.
\<close>

type_synonym jsdate = "int option"

definition time_clip :: "int \<Rightarrow> jsdate" where
  "time_clip t = (if \<bar>t\<bar> \<le> 8640000000000000 then Some t else None)"

datatype js_error = RangeError

text \<open>The civil date (year, month, day) of a day number counted from 1970-01-01.\<close>

definition civil_from_days :: "int \<Rightarrow> int \<times> int \<times> int" where
  "civil_from_days z0 =
     (let z = z0 + 719468;
          era = z div 146097;
          doe = z - era * 146097;
          yoe = (doe - doe div 1460 + doe div 36524 - doe div 146096) div 365;
          y = yoe + era * 400;
          doy = doe - (365 * yoe + yoe div 4 - yoe div 100);
          mp = (5 * doy + 2) div 153;
          d = doy - (153 * mp + 2) div 5 + 1;
          m = (if mp < 10 then mp + 3 else mp - 9)
      in (if m \<le> 2 then y + 1 else y, m, d))"

definition days_from_civil :: "int \<Rightarrow> int \<Rightarrow> int \<Rightarrow> int" where
  "days_from_civil y0 m d =
     (let y = (if m \<le> 2 then y0 - 1 else y0);
          era = y div 400;
          yoe = y - era * 400;
          doy = (153 * (if m > 2 then m - 3 else m + 9) + 2) div 5 + d - 1;
          doe = yoe * 365 + yoe div 4 - yoe div 100 + doy
      in era * 146097 + doe - 719468)"

text \<open>\<open>Date.prototype.toISOString\<close> of a time value: \<open>YYYY-MM-DDTHH:mm:ss.sssZ\<close>.\<close>

definition iso_string :: "int \<Rightarrow> jsstring" where
  "iso_string t =
     (let day = t div 86400000;
          ms = t mod 86400000;
          (y, m, d) = civil_from_days day;
          year = (if 0 \<le> y \<and> y \<le> 9999 then pad 4 y
                  else (if y < 0 then js ''-'' else js ''+'') @ pad 6 \<bar>y\<bar>)
      in year @ js ''-'' @ pad 2 m @ js ''-'' @ pad 2 d @ js ''T'' @
         pad 2 (ms div 3600000) @ js '':'' @ pad 2 (ms div 60000 mod 60) @ js '':'' @
         pad 2 (ms div 1000 mod 60) @ js ''.'' @ pad 3 (ms mod 1000) @ js ''Z'')"

definition toISOString :: "jsdate \<Rightarrow> js_error + jsstring" where
  "toISOString d = (case d of None \<Rightarrow> Inl RangeError | Some t \<Rightarrow> Inr (iso_string t))"

text \<open>
  The \<open>Date\<close> constructor on a string belongs to the host (see \<open>host\<close> below).
  \<open>iso_parse\<close> is its behaviour on the strings \<open>toISOString\<close> produces, with
  \<open>Invalid Date\<close> for every other string; it instantiates the host in the examples.
\<close>

definition days_in_month :: "int \<Rightarrow> int \<Rightarrow> int" where
  "days_in_month y m =
     (if m = 2 then (if y mod 4 = 0 \<and> (y mod 100 \<noteq> 0 \<or> y mod 400 = 0) then 29 else 28)
      else if m = 4 \<or> m = 6 \<or> m = 9 \<or> m = 11 then 30 else 31)"

definition iso_fields :: "int \<Rightarrow> jsstring \<Rightarrow> jsdate" where
  "iso_fields y s =
     (if length s = 20 \<and> s ! 0 = 45 \<and> s ! 3 = 45 \<and> s ! 6 = 84 \<and> s ! 9 = 58 \<and> s ! 12 = 58 \<and>
         s ! 15 = 46 \<and> s ! 19 = 90 \<and>
         list_all is_digit (substring 1 3 s @ substring 4 6 s @ substring 7 9 s @
                            substring 10 12 s @ substring 13 15 s @ substring 16 19 s)
      then
        (let m = parseInt (substring 1 3 s); d = parseInt (substring 4 6 s);
             h = parseInt (substring 7 9 s); mi = parseInt (substring 10 12 s);
             sec = parseInt (substring 13 15 s); ms = parseInt (substring 16 19 s)
         in if 1 \<le> m \<and> m \<le> 12 \<and> 1 \<le> d \<and> d \<le> days_in_month y m \<and> h \<le> 23 \<and> mi \<le> 59 \<and> sec \<le> 59
            then time_clip (days_from_civil y m d * 86400000 + h * 3600000 + mi * 60000 +
                            sec * 1000 + ms)
            else None)
      else None)"

definition iso_parse :: "jsstring \<Rightarrow> jsdate" where
  "iso_parse s =
     (case s of
        [] \<Rightarrow> None
      | c # cs \<Rightarrow>
          if c = 43 \<or> c = 45 then
            (if length cs \<ge> 6 \<and> list_all is_digit (take 6 cs) \<and>
                \<not> (c = 45 \<and> parseInt (take 6 cs) = 0)
             then iso_fields ((if c = 45 then - 1 else 1) * parseInt (take 6 cs)) (drop 6 cs)
             else None)
          else if length s \<ge> 4 \<and> list_all is_digit (take 4 s)
          then iso_fields (parseInt (take 4 s)) (drop 4 s)
          else None)"

text \<open>
  What one run reads from its host: the natural-language date recognizer
  \<open>chrono.parse(text, ref, { forwardDate: true })\<close>, of which each result has a start date
  and may have an end date; the \<open>Date\<close> constructor on a string; the clock readings of
  \<open>new Date()\<close> in \<open>extractCalendarEvent\<close>, of \<open>new Date()\<close> in \<open>generateICS\<close> and of
  \<open>Date.now()\<close> in \<open>generateUID\<close>; and the string \<open>Math.random().toString(36)\<close>.
\<close>

record ParsedResult =
  p_start :: jsdate
  p_end :: "jsdate option"

record host =
  chrono_parse :: "jsstring \<Rightarrow> int \<Rightarrow> ParsedResult list"
  date_parse :: "jsstring \<Rightarrow> jsdate"
  clock_extract :: int
  clock_stamp :: int
  clock_uid :: int
  random36 :: jsstring

text \<open>Sequencing of computations that may throw.\<close>

definition bind_err :: "js_error + 'a \<Rightarrow> ('a \<Rightarrow> js_error + 'b) \<Rightarrow> js_error + 'b" where
  "bind_err r f = (case r of Inl e \<Rightarrow> Inl e | Inr v \<Rightarrow> f v)"

section \<open>ICS serializer (utils/ics-generator.ts)\<close>

text \<open>The calendar event of types/email.ts; an optional field that is absent is \<open>None\<close>.\<close>

record CalendarEvent =
  title :: jsstring
  date :: jsstring
  endDate :: "jsstring option"
  location :: "jsstring option"
  attendees :: "jsstring list"
  description :: "jsstring option"
  icsContent :: "jsstring option"

text \<open>\<open>/\.\d{3}/\<close>\<close>

definition millisRegex :: regex where
  "millisRegex = seqs [lits ''.'', Rep 3 (Some 3) Digit]"

definition formatICSDate :: "jsdate \<Rightarrow> js_error + jsstring" where
  "formatICSDate d =
     bind_err (toISOString d)
       (\<lambda>s. Inr (remove_first False millisRegex (filter (\<lambda>c. c \<noteq> 45 \<and> c \<noteq> 58) s)))"

text \<open>\<open>s.replace(/c/g, r)\<close> for a single code unit \<open>c\<close>.\<close>

definition replace_all_char :: "int \<Rightarrow> jsstring \<Rightarrow> jsstring \<Rightarrow> jsstring" where
  "replace_all_char c r s = concat (map (\<lambda>x. if x = c then r else [x]) s)"

definition escapeICSText :: "jsstring \<Rightarrow> jsstring" where
  "escapeICSText text =
     replace_all_char 10 [92, 110]
       (replace_all_char 44 [92, 44]
         (replace_all_char 59 [92, 59]
           (replace_all_char 92 [92, 92] text)))"

definition generateUID :: "host \<Rightarrow> jsstring" where
  "generateUID h =
     show_int (clock_uid h) @ js ''-'' @ substring 2 11 (random36 h) @ js ''@email-orchestrator''"

definition CRLF :: jsstring where
  "CRLF = [13, 10]"

definition icsLines :: "host \<Rightarrow> CalendarEvent \<Rightarrow> js_error + jsstring list" where
  "icsLines h event =
     (let startDate = date_parse h (date event);
          endDate = (if truthy (endDate event) then date_parse h (the (endDate event))
                     else (case startDate of
                             None \<Rightarrow> None
                           | Some t \<Rightarrow> time_clip (t + 60 * 60 * 1000)));
          now = Some (clock_stamp h);
          uid = generateUID h
      in bind_err (formatICSDate now) (\<lambda>dtstamp.
         bind_err (formatICSDate startDate) (\<lambda>dtstart.
         bind_err (formatICSDate endDate) (\<lambda>dtend.
           Inr ([js ''BEGIN:VCALENDAR'',
                 js ''VERSION:2.0'',
                 js ''PRODID:-//Email Orchestrator//EN'',
                 js ''CALSCALE:GREGORIAN'',
                 js ''METHOD:PUBLISH'',
                 js ''BEGIN:VEVENT'',
                 js ''UID:'' @ uid,
                 js ''DTSTAMP:'' @ dtstamp,
                 js ''DTSTART:'' @ dtstart,
                 js ''DTEND:'' @ dtend,
                 js ''SUMMARY:'' @ escapeICSText (title event)] @
                (if truthy (location event)
                 then [js ''LOCATION:'' @ escapeICSText (the (location event))] else []) @
                (if truthy (description event)
                 then [js ''DESCRIPTION:'' @ escapeICSText (the (description event))] else []) @
                map (\<lambda>attendee. js ''ATTENDEE;RSVP=TRUE:mailto:'' @ attendee) (attendees event) @
                [js ''END:VEVENT'', js ''END:VCALENDAR''])))))"

definition generateICS :: "host \<Rightarrow> CalendarEvent \<Rightarrow> js_error + jsstring" where
  "generateICS h event = bind_err (icsLines h event) (\<lambda>ls. Inr (join CRLF ls))"

section \<open>Calendar event extractor (agents/calendar-extractor.ts)\<close>

text \<open>The four location patterns carry the flags \<open>gi\<close>.\<close>

definition LOCATION_PATTERNS :: "regex list" where
  "LOCATION_PATTERNS =
     [seqs [words [''in'', ''at'', ''room'', ''building'', ''office'', ''conference room'',
                   ''meeting room''],
            Star Space, Opt (Cls False (chars '':.'')), Star Space,
            Grp 1 (Seq (Cls False (rng CHR ''A'' CHR ''Z'' @ rng CHR ''0'' CHR ''9''))
                       (Plus (Cls False (chars ''-'' @ rng CHR ''A'' CHR ''Z'' @ rng CHR ''0'' CHR ''9'' @
                                         rng CHR ''a'' CHR ''z'' @ space_ranges))))],
      seqs [words [''location'', ''venue'', ''place''],
            Star Space, Opt (Cls False (chars '':.'')), Star Space,
            Grp 1 (Plus (Cls True ((10, 10) # chars '','')))],
      seqs [words [''zoom'', ''teams'', ''meet''],
            Star Space, Opt (words [''link'', ''url'', ''meeting'']),
            Star Space, Opt (Cls False (chars '':.'')), Star Space,
            Grp 1 (seqs [lits ''http'', Opt (lits ''s''), lits ''://'',
                         Plus (Cls True space_ranges)])],
      seqs [words [''join us at'', ''meet at'', ''gather at''],
            Plus Space,
            Grp 1 (Plus (Cls True ((10, 10) # chars '','')))]]"

text \<open>\<open>/^(in|at|room|building)\s*/i\<close>\<close>

definition locationPrefixRegex :: regex where
  "locationPrefixRegex =
     seqs [Bol, Grp 1 (words [''in'', ''at'', ''room'', ''building'']), Star Space]"

text \<open>
  A pattern with the \<open>g\<close> flag makes \<open>text.match\<close> return the texts of all matches, so
  \<open>match[1]\<close> is the second match, not a group.
\<close>

fun extractLocation_loop :: "regex list \<Rightarrow> jsstring \<Rightarrow> jsstring option" where
  "extractLocation_loop [] text = None"
| "extractLocation_loop (pattern # patterns) text =
     (case match_all True pattern text of
        [] \<Rightarrow> extractLocation_loop patterns text
      | m0 # ms \<Rightarrow>
          (let found = (case ms of [] \<Rightarrow> m0 | m1 # ms' \<Rightarrow> if m1 \<noteq> [] then m1 else m0);
               location = trim (remove_first True locationPrefixRegex found)
           in if length location > 2 \<and> length location < 100 then Some location
              else extractLocation_loop patterns text))"

definition extractLocation :: "jsstring \<Rightarrow> jsstring option" where
  "extractLocation text = extractLocation_loop LOCATION_PATTERNS text"

text \<open>
  The duration patterns \<open>/(\d+)\s*(?:hour|hr)s?/i\<close> and \<open>/(\d+)\s*(?:minute|min)s?/i\<close>, each
  with its source text, which \<open>extractDuration\<close> inspects.
\<close>

definition hourSource :: jsstring where
  "hourSource = js ''('' @ [92] @ js ''d+)'' @ [92] @ js ''s*(?:hour|hr)s?''"

definition hourPattern :: regex where
  "hourPattern = seqs [Grp 1 (Plus Digit), Star Space, words [''hour'', ''hr''], Opt (lits ''s'')]"

definition minuteSource :: jsstring where
  "minuteSource = js ''('' @ [92] @ js ''d+)'' @ [92] @ js ''s*(?:minute|min)s?''"

definition minutePattern :: regex where
  "minutePattern =
     seqs [Grp 1 (Plus Digit), Star Space, words [''minute'', ''min''], Opt (lits ''s'')]"

definition DURATION_PATTERNS :: "(jsstring \<times> regex) list" where
  "DURATION_PATTERNS = [(hourSource, hourPattern), (minuteSource, minutePattern)]"

text \<open>\<open>parseInt(match[1], 10)\<close>: the number a duration pattern captured.\<close>

definition captured_number :: "rmatch_result \<Rightarrow> int" where
  "captured_number m = parseInt (case group m 1 of None \<Rightarrow> [] | Some g \<Rightarrow> g)"

fun extractDuration_loop :: "(jsstring \<times> regex) list \<Rightarrow> jsstring \<Rightarrow> int" where
  "extractDuration_loop [] text = 60"
| "extractDuration_loop ((source, pattern) # patterns) text =
     (case regex_exec True pattern text of
        None \<Rightarrow> extractDuration_loop patterns text
      | Some m \<Rightarrow>
          if js_includes source (js ''hour'') then captured_number m * 60
          else captured_number m)"

definition extractDuration :: "jsstring \<Rightarrow> int" where
  "extractDuration text = extractDuration_loop DURATION_PATTERNS text"

text \<open>\<open>/[a-zA-Z0-9._%+-]+@[a-zA-Z0-9.-]+\.[a-zA-Z]{2,}/g\<close>\<close>

definition EMAIL_REGEX :: regex where
  "EMAIL_REGEX =
     seqs [Plus (Cls False (rng CHR ''a'' CHR ''z'' @ rng CHR ''A'' CHR ''Z'' @ rng CHR ''0'' CHR ''9'' @
                            chars ''._%+-'')),
           lits ''@'',
           Plus (Cls False (rng CHR ''a'' CHR ''z'' @ rng CHR ''A'' CHR ''Z'' @ rng CHR ''0'' CHR ''9'' @
                            chars ''.-'')),
           lits ''.'',
           Rep 2 None (Cls False (rng CHR ''a'' CHR ''z'' @ rng CHR ''A'' CHR ''Z''))]"

text \<open>\<open>Set.prototype.add\<close> on a set kept in insertion order.\<close>

definition set_add :: "jsstring list \<Rightarrow> jsstring \<Rightarrow> jsstring list" where
  "set_add xs x = (if x \<in> set xs then xs else xs @ [x])"

definition extractAttendees :: "Email \<Rightarrow> jsstring list" where
  "extractAttendees email =
     (let text = from_field email @ js '' '' @ body email;
          emails = match_all False EMAIL_REGEX text;
          senderMatch = match_all False EMAIL_REGEX (from_field email);
          attendees0 = (case senderMatch of [] \<Rightarrow> [] | s # ss \<Rightarrow> set_add [] (toLowerCase s))
      in foldl (\<lambda>acc e. set_add acc (toLowerCase e)) attendees0 emails)"

definition meetingIndicators :: "regex list" where
  "meetingIndicators =
     [seqs [WordB, words [''meeting'', ''meet'', ''call'', ''conference'', ''discussion'', ''review'',
                          ''sync'', ''standup'', ''catchup'', ''catch-up''], WordB],
      seqs [WordB, lits ''let'', Opt (Lit 39), Opt (lits ''s''), Plus Space,
            words [''meet'', ''discuss'', ''talk'', ''connect'', ''sync''], WordB],
      seqs [WordB, words [''schedule'', ''scheduled'', ''invite'', ''invitation'', ''calendar''], WordB],
      seqs [WordB, lits ''join'', Plus Space,
            alts [lits ''us'', lits ''me'', seqs [lits ''the'', Plus Space, lits ''call'']], WordB],
      seqs [WordB, lits ''please'', Plus Space, words [''attend'', ''join'', ''confirm''], WordB]]"

definition hasMeetingIndicators :: "jsstring \<Rightarrow> bool" where
  "hasMeetingIndicators text = list_ex (\<lambda>pattern. regex_test True pattern text) meetingIndicators"

text \<open>\<open>/(?:meeting|call|discussion)\s+(?:about|for|on|regarding)\s+([^\n.,]+)/i\<close>\<close>

definition titleRegex :: regex where
  "titleRegex =
     seqs [words [''meeting'', ''call'', ''discussion''], Plus Space,
           words [''about'', ''for'', ''on'', ''regarding''], Plus Space,
           Grp 1 (Plus (Cls True ((10, 10) # chars ''.,'')))]"

text \<open>\<open>/^(?:re:|fwd:)\s*/i\<close>\<close>

definition replyPrefixRegex :: regex where
  "replyPrefixRegex = seqs [Bol, words [''re:'', ''fwd:''], Star Space]"

definition extractTitle :: "Email \<Rightarrow> jsstring \<Rightarrow> jsstring" where
  "extractTitle email text =
     (let title0 = subject email;
          title1 =
            (if title0 = [] \<or> js_includes (toLowerCase title0) (js ''re:'') \<or>
                js_includes (toLowerCase title0) (js ''fwd:'')
             then (case regex_exec True titleRegex text of
                     None \<Rightarrow> title0
                   | Some m \<Rightarrow> trim (case group m 1 of None \<Rightarrow> [] | Some g \<Rightarrow> g))
             else title0)
      in trim (remove_first True replyPrefixRegex title1))"

definition extractCalendarEvent :: "host \<Rightarrow> Email \<Rightarrow> js_error + CalendarEvent option" where
  "extractCalendarEvent h email =
     (let text = subject_body email in
      if \<not> hasMeetingIndicators text then Inr None
      else
        (let parsedDates = chrono_parse h text (clock_extract h) in
         case parsedDates of
           [] \<Rightarrow> Inr None
         | primaryDate # others \<Rightarrow>
             (let startDate = p_start primaryDate;
                  durationMinutes = extractDuration text;
                  endDate =
                    (if length parsedDates > 1 \<and> p_end primaryDate \<noteq> None
                     then the (p_end primaryDate)
                     else (case startDate of
                             None \<Rightarrow> None
                           | Some t \<Rightarrow> time_clip (t + durationMinutes * 60 * 1000)));
                  location = extractLocation text;
                  attendees = extractAttendees email
              in bind_err (toISOString startDate) (\<lambda>dateISO.
                 bind_err (toISOString endDate) (\<lambda>endISO.
                   (let event =
                          \<lparr>title = extractTitle email text,
                           date = dateISO,
                           endDate = Some endISO,
                           location = location,
                           attendees = attendees,
                           description =
                             Some (js ''From: '' @ from_field email @ [10, 10] @
                                   substring 0 500 (body email)),
                           icsContent = None\<rparr>
                    in bind_err (generateICS h event)
                         (\<lambda>ics. Inr (Some (event\<lparr>icsContent := Some ics\<rparr>)))))))))"

section \<open>Tone heuristic (agents/reply-generator.ts)\<close>

datatype Tone = Formal | Casual | Neutral

definition formalIndicators :: "jsstring list" where
  "formalIndicators =
     [js ''dear'', js ''sincerely'', js ''regards'', js ''respectfully'',
      js ''please find attached'', js ''as per our'', js ''pursuant to'', js ''hereby'',
      js ''kindly'', js ''would you please'',
      js ''sehr geehrte'',
      js ''mit freundlichen gr'' @ [252, 223] @ js ''en'',
      js ''hochachtungsvoll'',
      js ''cher'',
      js ''ch'' @ [232] @ js ''re'',
      js ''cordialement'', js ''veuillez'',
      js ''estimado'', js ''estimada'', js ''atentamente'', js ''cordialmente'',
      js ''say'' @ [305] @ js ''n'',
      js ''sayg'' @ [305] @ js ''lar'' @ [305] @ js ''mla'',
      js ''sayg'' @ [305] @ js ''lar'']"

definition casualIndicators :: "jsstring list" where
  "casualIndicators =
     [js ''hey'', js ''hi!'', js ''thanks!'', js ''cheers'', js ''btw'', js ''gonna'', js ''wanna'',
      js ''asap'', js ''lol'', js ''haha'', js ''!!'', js '':)'', js '':D'',
      js ''hallo'',
      js ''tsch'' @ [252] @ js ''ss'',
      js ''lg'', js ''vg'',
      js ''salut'', js ''bisous'', js ''coucou'',
      js ''hola'', js ''saludos'', js ''vale'',
      js ''merhaba'', js ''selam'',
      js ''g'' @ [246] @ js ''r'' @ [252, 351, 252] @ js ''r'' @ [252] @ js ''z'']"

definition formalScore :: "Email \<Rightarrow> nat" where
  "formalScore email =
     length (filter (\<lambda>i. js_includes (toLowerCase (body email)) i \<or>
                         js_includes (toLowerCase (subject email)) i) formalIndicators)"

definition casualScore :: "Email \<Rightarrow> nat" where
  "casualScore email =
     length (filter (\<lambda>i. js_includes (toLowerCase (body email)) i \<or>
                         js_includes (toLowerCase (subject email)) i) casualIndicators)"

definition detectTone :: "Email \<Rightarrow> Tone" where
  "detectTone email =
     (if formalScore email > casualScore email then Formal
      else if casualScore email > formalScore email then Casual
      else Neutral)"

section \<open>Master orchestrator\<close>

text \<open>
  The module orchestrator/master.ts is known through its tests and its callers only; the
  functions of this section follow the specification's description of it.  The result
  types are those of types/email.ts.
\<close>

datatype Priority = High | Medium | Low

datatype Agent = Summarizer | SpamScorer | CalendarExtractor | LanguageDetector | ReplyGenerator

record SummarizerResult =
  summary :: jsstring
  keyPoints :: "jsstring list"
  actionItems :: "jsstring list"

record LanguageResult =
  language :: jsstring
  languageName :: jsstring
  confidence :: rat

record ReplyResult =
  reply :: jsstring
  tone :: Tone

record DetectedLanguage =
  lang_code :: jsstring
  lang_name :: jsstring
  lang_confidence :: rat

record OrchestrationResult =
  result_summary :: jsstring
  priority :: Priority
  suggested_reply :: "jsstring option"
  spam_score :: rat
  calendar_event :: "CalendarEvent option"
  actions_taken :: "jsstring list"
  processing_time_ms :: int
  detected_language :: "DetectedLanguage option"

text \<open>
  Modelled from the spec: the environment of \<open>processEmail\<close>, whose module
  orchestrator/master.ts is missing.  The five agents are total functions (section 6: each
  absorbs its own failures); the wording of the log entries for the start and the
  completion of an agent, the rendering of the score in the log, the keyword tests of the
  priority rule and the two readings of the timer are not fixed by the specification and
  are fields here.
\<close>

record orchestrator_env =
  summarizer_run :: "Email \<Rightarrow> SummarizerResult"
  spam_run :: "Email \<Rightarrow> SpamResult"
  calendar_run :: "Email \<Rightarrow> CalendarEvent option"
  language_run :: "Email \<Rightarrow> LanguageResult"
  reply_run :: "Email \<Rightarrow> SummarizerResult \<Rightarrow> LanguageResult \<Rightarrow> ReplyResult"
  started_entry :: "Agent \<Rightarrow> jsstring"
  completed_entry :: "Agent \<Rightarrow> jsstring"
  show_score :: "rat \<Rightarrow> jsstring"
  urgent_keywords_present :: "Email \<Rightarrow> bool"
  newsletter_keywords_present :: "Email \<Rightarrow> bool"
  timer_start :: int
  timer_stop :: int

text \<open>
  Modelled from the spec: the priority derivation of the missing module
  orchestrator/master.ts, after section 4.4, "spam-detected gives low (overrides
  everything else); else calendar-event-present or urgent-keyword-present gives high; else
  newsletter-keyword-present gives low; else medium".
\<close>

definition derive_priority :: "bool \<Rightarrow> bool \<Rightarrow> bool \<Rightarrow> bool \<Rightarrow> Priority" where
  "derive_priority spam_detected event_present urgent newsletter =
     (if spam_detected then Low
      else if event_present \<or> urgent then High
      else if newsletter then Low
      else Medium)"

text \<open>
  Modelled from the spec: the four analyzers that the missing \<open>processEmail\<close> launches in
  its first phase (section 4.1, step 2).
\<close>

definition phase1_agents :: "Agent list" where
  "phase1_agents = [Summarizer, SpamScorer, CalendarExtractor, LanguageDetector]"

text \<open>
  Modelled from the spec: \<open>processEmail\<close> of the missing module orchestrator/master.ts,
  after steps 1 to 8 of section 4.1.  The four
  analyzers of the first phase run on the email, their starts and completions are logged;
  a spam verdict skips the reply generator, logs "Reply skipped (spam detected)" and
  "Spam detected (score=...)", and leaves the reply null and the summary empty; otherwise
  the reply generator runs on the email, the summary and the language.  The second
  component of the result is the list of the agents invoked, in order.
\<close>

definition processEmail :: "orchestrator_env \<Rightarrow> Email \<Rightarrow> OrchestrationResult \<times> Agent list" where
  "processEmail env email =
     (let summaryResult = summarizer_run env email;
          spamResult = spam_run env email;
          calendarResult = calendar_run env email;
          languageResult = language_run env email;
          log1 = map (started_entry env) phase1_agents @ map (completed_entry env) phase1_agents;
          prio = derive_priority (isSpam spamResult) (calendarResult \<noteq> None)
                   (urgent_keywords_present env email) (newsletter_keywords_present env email)
      in if isSpam spamResult then
           (\<lparr>result_summary = [],
             priority = prio,
             suggested_reply = None,
             spam_score = score spamResult,
             calendar_event = calendarResult,
             actions_taken =
               log1 @ [js ''Reply skipped (spam detected)'',
                       js ''Spam detected (score='' @ show_score env (score spamResult) @ js '')''],
             processing_time_ms = timer_stop env - timer_start env,
             detected_language =
               Some \<lparr>lang_code = language languageResult,
                     lang_name = languageName languageResult,
                     lang_confidence = confidence languageResult\<rparr>\<rparr>,
            phase1_agents)
         else
           (let replyResult = reply_run env email summaryResult languageResult
            in (\<lparr>result_summary = summary summaryResult,
                  priority = prio,
                  suggested_reply = Some (reply replyResult),
                  spam_score = score spamResult,
                  calendar_event = calendarResult,
                  actions_taken =
                    log1 @ [started_entry env ReplyGenerator, completed_entry env ReplyGenerator],
                  processing_time_ms = timer_stop env - timer_start env,
                  detected_language =
               Some \<lparr>lang_code = language languageResult,
                     lang_name = languageName languageResult,
                     lang_confidence = confidence languageResult\<rparr>\<rparr>,
                phase1_agents @ [ReplyGenerator])))"

section \<open>Specification-side notions and example inputs\<close>

text \<open>
  The score as the specification words it: every feature that holds contributes its fixed
  weight, and the sum is capped at 1.  \<open>triggered\<close> lists the features that hold.
\<close>

definition feature_weight_sum :: "SpamFeatures \<Rightarrow> rat" where
  "feature_weight_sum f =
     (if senderDomainMismatch f then 0.30 else 0) +
     (if suspiciousLinks f then 0.25 else 0) +
     (if urgencyWords f then 0.20 else 0) +
     (if grammarIssues f then 0.10 else 0) +
     (if knownSpamPatterns f then 0.35 else 0)"


definition phishing_email :: Email where
  "phishing_email =
     \<lparr>from_field = js ''PayPal <a@b.io>'', subject = js ''urgent'',
      body = js ''http://bit.ly/x''\<rparr>"

text \<open>The event a run returned, if it returned one.\<close>

definition returned_event :: "js_error + CalendarEvent option \<Rightarrow> CalendarEvent option" where
  "returned_event r = (case r of Inl e \<Rightarrow> None | Inr v \<Rightarrow> v)"

text \<open>
  A stand-in for the date recognizer with a single rule: the word "tomorrow" denotes the
  reference instant plus one day.  It instantiates the host in the examples, together with
  \<open>iso_parse\<close>, the clock readings of 2023-11-14T22:13:20Z and a sample random string.
\<close>

definition relative_recognizer :: "jsstring \<Rightarrow> int \<Rightarrow> ParsedResult list" where
  "relative_recognizer text ref =
     (if js_includes (toLowerCase text) (js ''tomorrow'')
      then [\<lparr>p_start = Some (ref + 86400000), p_end = None\<rparr>] else [])"

definition example_host :: host where
  "example_host =
     \<lparr>chrono_parse = relative_recognizer, date_parse = iso_parse,
      clock_extract = 1700000000000, clock_stamp = 1700000000001, clock_uid = 1700000000002,
      random36 = js ''0.4fzyo82mvyr''\<rparr>"

text \<open>
  A host whose recognizer finds, whatever the text, one candidate that runs from
  2023-11-15T15:00Z to 15:30Z, as for "3pm-3:30pm".
\<close>

definition range_host :: host where
  "range_host =
     \<lparr>chrono_parse = (\<lambda>text ref. [\<lparr>p_start = Some 1700060400000,
                                        p_end = Some (Some 1700062200000)\<rparr>]),
      date_parse = iso_parse,
      clock_extract = 1700000000000, clock_stamp = 1700000000001, clock_uid = 1700000000002,
      random36 = js ''0.4fzyo82mvyr''\<rparr>"

definition range_email :: Email where
  "range_email =
     \<lparr>from_field = js ''ann@acme.com'', subject = js ''Sync'', body = js ''Call 3pm-3:30pm''\<rparr>"

definition meeting_email :: Email where
  "meeting_email =
     \<lparr>from_field = js ''Ann <Ann@Acme.com>'', subject = js ''Sync'',
      body = js ''Call tomorrow, 2 hours, in Room 204. cc bob@acme.com''\<rparr>"

definition newsletter_email :: Email where
  "newsletter_email =
     \<lparr>from_field = js ''news@site.com'', subject = js ''Weekly Newsletter'',
      body = js ''Top stories out tomorrow''\<rparr>"

definition undated_email :: Email where
  "undated_email =
     \<lparr>from_field = js ''ann@acme.com'', subject = js ''Sync'', body = js ''Let's meet soon''\<rparr>"

definition subject_address_email :: Email where
  "subject_address_email =
     \<lparr>from_field = js ''Ann <a@b.io>'', subject = js ''Call tomorrow with bob@x.io'',
      body = js ''See you''\<rparr>"

text \<open>The same host an hour later, and the same host with other readings for the serializer.\<close>

definition later_host :: host where
  "later_host = example_host\<lparr>clock_extract := 1700000000000 + 3600000\<rparr>"

definition rerun_host :: host where
  "rerun_host =
     example_host\<lparr>clock_stamp := 1700000000500, clock_uid := 1700000000501,
                   random36 := js ''0.9k2j1x0q7ab''\<rparr>"








definition formal_email :: Email where
  "formal_email =
     \<lparr>from_field = js ''ann@acme.com'', subject = js ''Hey'',
      body = js ''Dear team, see attached. Kind regards''\<rparr>"

text \<open>
  An orchestrator environment for the examples: the spam scorer and the calendar extractor
  are the ones above, the other agents return fixed results, and the score is rendered as
  that of \<open>phishing_email\<close> is.
\<close>

definition example_env :: orchestrator_env where
  "example_env =
     \<lparr>summarizer_run = (\<lambda>email. \<lparr>summary = js ''A summary'', keyPoints = [], actionItems = []\<rparr>),
      spam_run = detectSpam,
      calendar_run = (\<lambda>email. returned_event (extractCalendarEvent example_host email)),
      language_run = (\<lambda>email. \<lparr>language = js ''en'', languageName = js ''English'', confidence = 0.7\<rparr>),
      reply_run = (\<lambda>email s l. \<lparr>reply = js ''Thank you.'', tone = detectTone email\<rparr>),
      started_entry = (\<lambda>a. js ''started''),
      completed_entry = (\<lambda>a. js ''completed''),
      show_score = (\<lambda>s. js ''0.75''),
      urgent_keywords_present = (\<lambda>email. js_includes (toLowerCase (subject_body email)) (js ''urgent'')),
      newsletter_keywords_present = (\<lambda>email. js_includes (toLowerCase (subject_body email)) (js ''newsletter'')),
      timer_start = 1700000000000,
      timer_stop = 1700000000005\<rparr>"

section \<open>Verified properties\<close>

subsection \<open>The matcher conserves its input, and its fuel suffices\<close>

text \<open>
  Every state the matcher reaches splits the same input into what is consumed and what is
  left.  Hence an iteration of a quantifier that consumes input shortens what is left, and
  both recursions on fuel (\<open>rep_star\<close>, \<open>match_all_from\<close>) return the same result for any
  fuel that is at least as long as the input left: the fuel they are given never runs out
  before the input does.
\<close>

lemma step1_conserves:
  "s' \<in> set (step1 P s) \<Longrightarrow> rev (consumed s') @ rest s' = rev (consumed s) @ rest s"
  by (auto simp: step1_def split: list.splits if_splits)

lemma iter_conserves:
  assumes f: "\<And>s s'. s' \<in> set (f s) \<Longrightarrow> rev (consumed s') @ rest s' = rev (consumed s) @ rest s"
      and m: "(p, s') \<in> set (iter f gs s)"
  shows "rev (consumed s') @ rest s' = rev (consumed s) @ rest s"
    and "p \<Longrightarrow> length (rest s') < length (rest s)"
proof -
  let ?s0 = "s\<lparr>consumed := [], caps := filter (\<lambda>(k, v). k \<notin> set gs) (caps s)\<rparr>"
  from m obtain s1 where s1: "s1 \<in> set (f ?s0)"
    and p: "p = (consumed s1 \<noteq> [])" and s': "s' = s1\<lparr>consumed := consumed s1 @ consumed s\<rparr>"
    by (auto simp: iter_def)
  from f [OF s1] have c: "rev (consumed s1) @ rest s1 = rest s" by simp
  with s' show "rev (consumed s') @ rest s' = rev (consumed s) @ rest s" by simp
  from c have "length (consumed s1) + length (rest s1) = length (rest s)"
    by (metis length_append length_rev)
  with p s' show "p \<Longrightarrow> length (rest s') < length (rest s)" by (cases "consumed s1") simp_all
qed

lemma rep_star_conserves:
  assumes f: "\<And>s s'. s' \<in> set (f s) \<Longrightarrow> rev (consumed s') @ rest s' = rev (consumed s) @ rest s"
  shows "s' \<in> set (rep_star f gs mx fuel s) \<Longrightarrow>
         rev (consumed s') @ rest s' = rev (consumed s) @ rest s"
proof (induction fuel arbitrary: s mx)
  case Nil
  then show ?case by simp
next
  case (Cons u fuel)
  show ?case
  proof (cases "mx = Some 0")
    case True
    with Cons.prems show ?thesis by simp
  next
    case False
    with Cons.prems consider "s' = s"
      | p s1 where "(p, s1) \<in> set (iter f gs s)" "s' \<in> set (rep_star f gs (dec_max mx) fuel s1)"
      by auto
    then show ?thesis
    proof cases
      case 1
      then show ?thesis by simp
    next
      case 2
      from Cons.IH [OF 2(2)] iter_conserves(1) [OF f 2(1)] show ?thesis by simp
    qed
  qed
qed

lemma rep_min_conserves:
  assumes f: "\<And>s s'. s' \<in> set (f s) \<Longrightarrow> rev (consumed s') @ rest s' = rev (consumed s) @ rest s"
  shows "s' \<in> set (rep_min f gs mn mx s) \<Longrightarrow>
         rev (consumed s') @ rest s' = rev (consumed s) @ rest s"
proof (induction mn arbitrary: s mx)
  case 0
  then show ?case using rep_star_conserves [OF f] by simp
next
  case (Suc mn)
  show ?case
  proof (cases "mx = Some 0")
    case True
    with Suc.prems show ?thesis by simp
  next
    case False
    with Suc.prems obtain p s1 where
      "(p, s1) \<in> set (iter f gs s)" "s' \<in> set (rep_min f gs mn (dec_max mx) s1)"
      by auto
    with Suc.IH iter_conserves(1) [OF f] show ?thesis by metis
  qed
qed

lemma rmatch_conserves:
  "s' \<in> set (rmatch ic r s) \<Longrightarrow> rev (consumed s') @ rest s' = rev (consumed s) @ rest s"
proof (induction r arbitrary: s s')
  case (Seq a b)
  then show ?case by (auto; metis)
next
  case (Rep mn mx a)
  from Rep.prems rep_min_conserves [of "rmatch ic a", OF Rep.IH] show ?case by simp
next
  case (Grp k a)
  from Grp.prems obtain s1 where s1: "s1 \<in> set (rmatch ic a (s\<lparr>consumed := []\<rparr>))"
    and s': "s' = s1\<lparr>consumed := consumed s1 @ consumed s,
                      caps := AList.update k (rev (consumed s1)) (caps s1)\<rparr>"
    by auto
  from Grp.IH [OF s1] s' show ?case by simp
qed (auto simp: step1_conserves split: if_splits)

lemma rep_star_fuel:
  assumes f: "\<And>s s'. s' \<in> set (f s) \<Longrightarrow> rev (consumed s') @ rest s' = rev (consumed s) @ rest s"
  shows "length (rest s) \<le> length fuel \<Longrightarrow> length (rest s) \<le> length fuel' \<Longrightarrow>
         rep_star f gs mx fuel s = rep_star f gs mx fuel' s"
proof (induction fuel arbitrary: s mx fuel')
  case Nil
  then have e: "rest s = []" by simp
  have "\<And>p s1. (p, s1) \<in> set (iter f gs s) \<Longrightarrow> p \<Longrightarrow> length (rest s1) < length (rest s)"
    by (rule iter_conserves(2) [OF f])
  with e have "filter fst (iter f gs s) = []"
    by (auto simp: filter_empty_conv)
  then show ?case by (cases fuel') simp_all
next
  case outer: (Cons u fuel)
  have shorter: "\<And>p s1. (p, s1) \<in> set (iter f gs s) \<Longrightarrow> p \<Longrightarrow> length (rest s1) < length (rest s)"
    by (rule iter_conserves(2) [OF f])
  show ?case
  proof (cases fuel')
    case Nil
    with outer.prems have e: "rest s = []" by simp
    with shorter have "filter fst (iter f gs s) = []"
      by (auto simp: filter_empty_conv)
    with Nil show ?thesis by simp
  next
    case inner: (Cons u' fuel'')
    have "rep_star f gs (dec_max mx) fuel s1 = rep_star f gs (dec_max mx) fuel'' s1"
      if "(p, s1) \<in> set (filter fst (iter f gs s))" for p s1
    proof -
      from that shorter have "length (rest s1) < length (rest s)"
        by auto
      with outer.prems inner have "length (rest s1) \<le> length fuel" "length (rest s1) \<le> length fuel''"
        by simp_all
      then show ?thesis by (rule outer.IH)
    qed
    then have meq:
      "map (\<lambda>(p, s'). rep_star f gs (dec_max mx) fuel s') (filter fst (iter f gs s)) =
       map (\<lambda>(p, s'). rep_star f gs (dec_max mx) fuel'' s') (filter fst (iter f gs s))"
      by (intro map_cong) auto
    show ?thesis unfolding inner by (simp only: rep_star.simps meq)
  qed
qed

lemma rep_star_fuel_adequate:
  "length (rest s) \<le> length fuel \<Longrightarrow>
   rep_star (rmatch ic a) gs mx fuel s = rep_star (rmatch ic a) gs mx (rest s) s"
  by (rule rep_star_fuel) (simp_all add: rmatch_conserves)

lemma exec_from_shape:
  "exec_from ic r skipped p s = Some m \<Longrightarrow> rev skipped @ s = m_pre m @ m_text m @ m_rest m"
proof (induction s arbitrary: skipped p)
  case Nil
  then obtain s1 ss where r: "rmatch ic r \<lparr>prev = p, rest = [], consumed = [], caps = []\<rparr> = s1 # ss"
    and m: "m = \<lparr>m_pre = rev skipped, m_text = rev (consumed s1), m_groups = caps s1,
                  m_prev = prev s1, m_rest = rest s1\<rparr>"
    by (auto split: list.splits)
  from r have "s1 \<in> set (rmatch ic r \<lparr>prev = p, rest = [], consumed = [], caps = []\<rparr>)" by simp
  from rmatch_conserves [OF this] m show ?case by simp
next
  case (Cons c cs)
  show ?case
  proof (cases "rmatch ic r \<lparr>prev = p, rest = c # cs, consumed = [], caps = []\<rparr>")
    case Nil
    with Cons.prems have "exec_from ic r (c # skipped) (Some c) cs = Some m" by simp
    from Cons.IH [OF this] show ?thesis by simp
  next
    case (Cons s1 ss)
    with Cons.prems have m: "m = \<lparr>m_pre = rev skipped, m_text = rev (consumed s1), m_groups = caps s1,
                  m_prev = prev s1, m_rest = rest s1\<rparr>"
      by simp
    from Cons have "s1 \<in> set (rmatch ic r \<lparr>prev = p, rest = c # cs, consumed = [], caps = []\<rparr>)"
      by simp
    from rmatch_conserves [OF this] m show ?thesis by simp
  qed
qed

lemma match_all_from_fuel:
  "length s < fuel \<Longrightarrow> length s < fuel' \<Longrightarrow>
   match_all_from ic r fuel p s = match_all_from ic r fuel' p s"
proof (induction fuel arbitrary: fuel' p s)
  case 0
  then show ?case by simp
next
  case (Suc k)
  then obtain k' where k': "fuel' = Suc k'" by (cases fuel') simp_all
  show ?case
  proof (cases "exec_from ic r [] p s")
    case None
    with k' show ?thesis by simp
  next
    case (Some m)
    from exec_from_shape [OF Some] have shape: "s = m_pre m @ m_text m @ m_rest m" by simp
    then have len: "length s = length (m_pre m) + length (m_text m) + length (m_rest m)"
      by (metis length_append add.assoc)
    show ?thesis
    proof (cases "m_text m = []")
      case True
      show ?thesis
      proof (cases "m_rest m")
        case Nil
        with Some True k' show ?thesis by simp
      next
        case (Cons c cs)
        with len Suc.prems k' have "length cs < k" "length cs < k'" by simp_all
        then have "match_all_from ic r k (Some c) cs = match_all_from ic r k' (Some c) cs"
          by (rule Suc.IH)
        with Some True Cons k' show ?thesis by simp
      qed
    next
      case False
      then obtain x xs where "m_text m = x # xs" by (cases "m_text m") simp_all
      then have "length (m_text m) = Suc (length xs)" by simp
      with len Suc.prems k' have "length (m_rest m) < k" "length (m_rest m) < k'" by simp_all
      then have "match_all_from ic r k (m_prev m) (m_rest m) = match_all_from ic r k' (m_prev m) (m_rest m)"
        by (rule Suc.IH)
      with Some False k' show ?thesis by simp
    qed
  qed
qed

lemma match_all_fuel_adequate:
  "length text < fuel \<Longrightarrow> match_all_from ic r fuel None text = match_all ic r text"
  unfolding match_all_def by (rule match_all_from_fuel) simp_all

subsection \<open>Spam scorer\<close>

text \<open>
  The weights are decimal fractions and the model adds them exactly.  The program adds
  the nearest doubles; on the 32 combinations of features its sum is the double nearest
  to the exact sum or a neighbour of it, and both the comparison with 0.5 and the cap at
  1 come out as in exact arithmetic.
\<close>

lemma add_feature_fst: "fst (add_feature f w r acc) = fst acc + (if f then w else 0)"
  by (simp add: add_feature_def)



lemma detectSpam_score:
  "score (detectSpam email) = min (feature_weight_sum (extract_features email)) 1"
  by (simp add: detectSpam_def Let_def add_feature_fst feature_weight_sum_def WEIGHTS_def)

lemma detectSpam_isSpam:
  "isSpam (detectSpam email) = (feature_weight_sum (extract_features email) \<ge> 0.5)"
  by (simp add: detectSpam_def Let_def add_feature_fst feature_weight_sum_def WEIGHTS_def)


lemma feature_weight_sum_nonneg: "0 \<le> feature_weight_sum f"
  by (simp add: feature_weight_sum_def)

text \<open>
  C1: for every email the score of \<open>detectSpam\<close> lies in the closed interval from 0 to 1,
  and \<open>isSpam\<close> is true exactly when the returned score is at least 0.5.
\<close>

theorem detectSpam_score_range:
  "0 \<le> score (detectSpam email) \<and> score (detectSpam email) \<le> 1 \<and>
   (isSpam (detectSpam email) \<longleftrightarrow> score (detectSpam email) \<ge> 0.5)"
proof -
  let ?s = "feature_weight_sum (extract_features email)"
  have "0 \<le> ?s" by (rule feature_weight_sum_nonneg)
  moreover have "(?s \<ge> 0.5) = (min ?s 1 \<ge> 0.5)" by (simp add: min_def)
  ultimately show ?thesis
    by (simp add: detectSpam_score detectSpam_isSpam)
qed

theorem detectSpam_score_range_witness:
  "score (detectSpam phishing_email) = 3 / 4 \<and>
   0 \<le> score (detectSpam phishing_email) \<and> score (detectSpam phishing_email) \<le> 1 \<and>
   isSpam (detectSpam phishing_email)"
proof -
  have "score (detectSpam phishing_email) = 3 / 4" by code_simp
  with detectSpam_score_range [of phishing_email] show ?thesis by simp
qed



subsection \<open>Calendar event extractor\<close>

text \<open>
  C4: when subject and body contain none of the meeting indicators, \<open>extractCalendarEvent\<close>
  returns null, whatever dates the text holds; and when the recognizer finds no candidate
  date in subject and body, it returns null as well.
\<close>

theorem extractCalendarEvent_gates:
  "(\<not> hasMeetingIndicators (subject_body email) \<longrightarrow> extractCalendarEvent h email = Inr None) \<and>
   (chrono_parse h (subject_body email) (clock_extract h) = [] \<longrightarrow>
      extractCalendarEvent h email = Inr None)"
  by (simp add: extractCalendarEvent_def Let_def)

theorem extractCalendarEvent_gates_witness:
  "\<not> hasMeetingIndicators (subject_body newsletter_email) \<and>
   chrono_parse example_host (subject_body newsletter_email) (clock_extract example_host) \<noteq> [] \<and>
   extractCalendarEvent example_host newsletter_email = Inr None \<and>
   hasMeetingIndicators (subject_body undated_email) \<and>
   chrono_parse example_host (subject_body undated_email) (clock_extract example_host) = [] \<and>
   extractCalendarEvent example_host undated_email = Inr None"
proof -
  have a: "\<not> hasMeetingIndicators (subject_body newsletter_email)"
    by code_simp
  have b: "chrono_parse example_host (subject_body newsletter_email) (clock_extract example_host) \<noteq> []"
    by code_simp
  have c: "hasMeetingIndicators (subject_body undated_email)"
    by code_simp
  have d: "chrono_parse example_host (subject_body undated_email) (clock_extract example_host) = []"
    by code_simp
  from a b c d extractCalendarEvent_gates [of newsletter_email example_host]
    extractCalendarEvent_gates [of undated_email example_host]
  show ?thesis by simp
qed

lemma bind_err_Inr: "bind_err r f = Inr v \<Longrightarrow> \<exists>x. r = Inr x \<and> f x = Inr v"
  by (cases r) (simp_all add: bind_err_def)

lemma toISOString_Inr: "toISOString d = Inr s \<Longrightarrow> \<exists>t. d = Some t \<and> s = iso_string t"
  by (cases d) (auto simp: toISOString_def)

lemma extractDuration_cases:
  "extractDuration text =
     (case regex_exec True hourPattern text of
        Some m \<Rightarrow> captured_number m * 60
      | None \<Rightarrow> (case regex_exec True minutePattern text of
                    Some m \<Rightarrow> captured_number m
                  | None \<Rightarrow> 60))"
proof -
  have h: "js_includes hourSource (js ''hour'')"
    by code_simp
  have m: "\<not> js_includes minuteSource (js ''hour'')"
    by code_simp
  show ?thesis
    by (simp add: extractDuration_def DURATION_PATTERNS_def h m split: option.splits)
qed

lemma extractCalendarEvent_Some:
  assumes "extractCalendarEvent h email = Inr (Some ev)"
  shows "\<exists>primaryDate others dateISO endISO ics.
           chrono_parse h (subject_body email) (clock_extract h) = primaryDate # others \<and>
           toISOString (p_start primaryDate) = Inr dateISO \<and>
           toISOString
             (if others \<noteq> [] \<and> p_end primaryDate \<noteq> None then the (p_end primaryDate)
              else (case p_start primaryDate of None \<Rightarrow> None
                    | Some t \<Rightarrow> time_clip (t + extractDuration (subject_body email) * 60 * 1000)))
             = Inr endISO \<and>
           ev = \<lparr>title = extractTitle email (subject_body email), date = dateISO,
                 endDate = Some endISO, location = extractLocation (subject_body email),
                 attendees = extractAttendees email,
                 description = Some (js ''From: '' @ from_field email @ [10, 10] @
                                     substring 0 500 (body email)),
                 icsContent = Some ics\<rparr>"
proof -
  let ?text = "subject_body email"
  from assms have ind: "hasMeetingIndicators ?text"
    by (auto simp: extractCalendarEvent_def Let_def split: if_splits)
  from assms ind obtain p others where ps: "chrono_parse h ?text (clock_extract h) = p # others"
    by (cases "chrono_parse h ?text (clock_extract h)") (auto simp: extractCalendarEvent_def Let_def)
  let ?endD = "if others \<noteq> [] \<and> p_end p \<noteq> None then the (p_end p)
              else (case p_start p of None \<Rightarrow> None
                    | Some t \<Rightarrow> time_clip (t + extractDuration ?text * 60 * 1000))"
  let ?ev = "\<lambda>d e. \<lparr>title = extractTitle email ?text, date = d,
                 endDate = Some e, location = extractLocation ?text,
                 attendees = extractAttendees email,
                 description = Some (js ''From: '' @ from_field email @ [10, 10] @
                                     substring 0 500 (body email)),
                 icsContent = None\<rparr>"
  from assms ind ps have run:
    "bind_err (toISOString (p_start p)) (\<lambda>d.
       bind_err (toISOString ?endD) (\<lambda>e.
         bind_err (generateICS h (?ev d e)) (\<lambda>ics. Inr (Some ((?ev d e)\<lparr>icsContent := Some ics\<rparr>)))))
     = Inr (Some ev)"
    by (simp add: extractCalendarEvent_def Let_def)
  from bind_err_Inr [OF run] obtain d where d: "toISOString (p_start p) = Inr d"
    and run2: "bind_err (toISOString ?endD) (\<lambda>e.
         bind_err (generateICS h (?ev d e)) (\<lambda>ics. Inr (Some ((?ev d e)\<lparr>icsContent := Some ics\<rparr>))))
       = Inr (Some ev)"
    by blast
  from bind_err_Inr [OF run2] obtain e where e: "toISOString ?endD = Inr e"
    and run3: "bind_err (generateICS h (?ev d e)) (\<lambda>ics. Inr (Some ((?ev d e)\<lparr>icsContent := Some ics\<rparr>)))
       = Inr (Some ev)"
    by blast
  from bind_err_Inr [OF run3] obtain ics where "generateICS h (?ev d e) = Inr ics"
    and "Inr (Some ((?ev d e)\<lparr>icsContent := Some ics\<rparr>)) = (Inr (Some ev) :: js_error + CalendarEvent option)"
    by blast
  then have "ev = (?ev d e)\<lparr>icsContent := Some ics\<rparr>" by simp
  with ps d e show ?thesis by simp
qed

lemma returned_eventD: "returned_event r = Some ev \<Longrightarrow> r = Inr (Some ev)"
  by (cases r) (simp_all add: returned_event_def)

text \<open>
  C5, as stated, fails: a single candidate that carries an explicit end time does not
  give the event its end.  With the recognizer's one candidate running from 15:00 to 15:30
  and no duration in the text, the event ends at 16:00.
\<close>

theorem explicit_end_ignored_counterexample:
  "map p_end (chrono_parse range_host (subject_body range_email) (clock_extract range_host)) =
     [Some (Some 1700062200000)] \<and>
   iso_string 1700062200000 = js ''2023-11-15T15:30:00.000Z'' \<and>
   extractDuration (subject_body range_email) = 60 \<and>
   map_option date (returned_event (extractCalendarEvent range_host range_email)) =
     Some (js ''2023-11-15T15:00:00.000Z'') \<and>
   map_option endDate (returned_event (extractCalendarEvent range_host range_email)) =
     Some (Some (js ''2023-11-15T16:00:00.000Z''))"
  by code_simp

text \<open>
  C5, amended: for every email for which \<open>extractCalendarEvent\<close> returns an event, the
  start of the event is the start of the first candidate; when the recognizer found more
  than one candidate and the first carries an explicit end, that end is \<open>endDate\<close>;
  otherwise \<open>endDate\<close> is the start plus the duration, which is 60 times the number of the
  first "N hour/hr" mention if there is one, else the number of the first "N minute/min"
  mention, else 60 minutes.
\<close>

theorem extractCalendarEvent_start_and_end:
  assumes "extractCalendarEvent h email = Inr (Some ev)"
  shows "\<exists>primaryDate others t.
           chrono_parse h (subject_body email) (clock_extract h) = primaryDate # others \<and>
           p_start primaryDate = Some t \<and>
           date ev = iso_string t \<and>
           (if others \<noteq> [] \<and> p_end primaryDate \<noteq> None
            then \<exists>t'. p_end primaryDate = Some (Some t') \<and> endDate ev = Some (iso_string t')
            else endDate ev = Some (iso_string (t + extractDuration (subject_body email) * 60000))) \<and>
           extractDuration (subject_body email) =
             (case regex_exec True hourPattern (subject_body email) of
                Some m \<Rightarrow> captured_number m * 60
              | None \<Rightarrow> (case regex_exec True minutePattern (subject_body email) of
                            Some m \<Rightarrow> captured_number m
                          | None \<Rightarrow> 60))"
proof -
  let ?text = "subject_body email"
  from extractCalendarEvent_Some [OF assms] obtain p others dateISO endISO ics where
    ps: "chrono_parse h ?text (clock_extract h) = p # others" and
    d: "toISOString (p_start p) = Inr dateISO" and
    e: "toISOString
             (if others \<noteq> [] \<and> p_end p \<noteq> None then the (p_end p)
              else (case p_start p of None \<Rightarrow> None
                    | Some t \<Rightarrow> time_clip (t + extractDuration ?text * 60 * 1000)))
             = Inr endISO" and
    ev: "date ev = dateISO" "endDate ev = Some endISO"
    by fastforce
  from toISOString_Inr [OF d] obtain t where t: "p_start p = Some t" "dateISO = iso_string t"
    by blast
  have "if others \<noteq> [] \<and> p_end p \<noteq> None
        then \<exists>t'. p_end p = Some (Some t') \<and> endDate ev = Some (iso_string t')
        else endDate ev = Some (iso_string (t + extractDuration ?text * 60000))"
  proof (cases "others \<noteq> [] \<and> p_end p \<noteq> None")
    case True
    with e have "toISOString (the (p_end p)) = Inr endISO" by simp
    from toISOString_Inr [OF this] obtain t' where "the (p_end p) = Some t'" "endISO = iso_string t'"
      by blast
    with True ev show ?thesis by auto
  next
    case False
    with e t have "toISOString (time_clip (t + extractDuration ?text * 60 * 1000)) = Inr endISO"
      by auto
    from toISOString_Inr [OF this] obtain t' where
      "time_clip (t + extractDuration ?text * 60 * 1000) = Some t'" "endISO = iso_string t'"
      by blast
    moreover from this have "t' = t + extractDuration ?text * 60000"
      by (simp add: time_clip_def split: if_splits)
    ultimately have "endDate ev = Some (iso_string (t + extractDuration ?text * 60000))"
      using ev by simp
    with False show ?thesis by (simp only: if_False)
  qed
  with ps t ev extractDuration_cases [of ?text] show ?thesis by blast
qed

theorem extractCalendarEvent_start_and_end_witness:
  "map_option date (returned_event (extractCalendarEvent example_host meeting_email)) =
     Some (js ''2023-11-15T22:13:20.000Z'') \<and>
   map_option endDate (returned_event (extractCalendarEvent example_host meeting_email)) =
     Some (Some (js ''2023-11-16T00:13:20.000Z''))"
proof -
  have "returned_event (extractCalendarEvent example_host meeting_email) \<noteq> None"
    by code_simp
  then obtain ev where ev: "returned_event (extractCalendarEvent example_host meeting_email) = Some ev"
    by blast
  have c: "chrono_parse example_host (subject_body meeting_email) (clock_extract example_host) =
             [\<lparr>p_start = Some 1700086400000, p_end = None\<rparr>]"
    by code_simp
  have d: "extractDuration (subject_body meeting_email) = 120"
    by code_simp
  have i1: "iso_string 1700086400000 = js ''2023-11-15T22:13:20.000Z''"
    by code_simp
  have i2: "iso_string 1700093600000 = js ''2023-11-16T00:13:20.000Z''"
    by code_simp
  from extractCalendarEvent_start_and_end [OF returned_eventD [OF ev]] c d
  have "date ev = iso_string 1700086400000 \<and> endDate ev = Some (iso_string 1700093600000)"
    by auto
  with ev i1 i2 show ?thesis by simp
qed

lemma set_add_remdups:
  "distinct xs \<Longrightarrow> set_add xs x = rev (remdups (x # rev xs))"
  by (simp add: set_add_def distinct_remdups_id)

lemma remdups_Cons_remdups: "remdups (x # remdups ys) = remdups (x # ys)"
  by simp

lemma foldl_set_add:
  "distinct acc \<Longrightarrow> foldl set_add acc xs = rev (remdups (rev (acc @ xs)))"
proof (induction xs rule: rev_induct)
  case Nil
  then show ?case by (simp add: distinct_remdups_id)
next
  case (snoc x xs)
  have "foldl set_add acc (xs @ [x]) = set_add (foldl set_add acc xs) x" by simp
  also have "\<dots> = set_add (rev (remdups (rev (acc @ xs)))) x"
    using snoc by simp
  also have "\<dots> = rev (remdups (x # rev (rev (remdups (rev (acc @ xs))))))"
    by (rule set_add_remdups) simp
  also have "\<dots> = rev (remdups (x # rev (acc @ xs)))"
    by (simp only: rev_rev_ident remdups_Cons_remdups)
  finally show ?case by simp
qed

lemma remdups_snoc: "remdups (ys @ [a]) = remdups (filter (\<lambda>y. y \<noteq> a) ys) @ [a]"
  by (induction ys) auto

lemma first_occurrences:
  "distinct (rev (remdups (rev xs)))"
  "set (rev (remdups (rev xs))) = set xs"
  "take 1 (rev (remdups (rev xs))) = take 1 xs"
proof -
  show "distinct (rev (remdups (rev xs)))" by simp
  show "set (rev (remdups (rev xs))) = set xs" by simp
  show "take 1 (rev (remdups (rev xs))) = take 1 xs"
    by (cases xs) (simp_all add: remdups_snoc)
qed

lemma extractAttendees_eq:
  "extractAttendees email =
     rev (remdups (rev (map toLowerCase
       (take 1 (match_all False EMAIL_REGEX (from_field email)) @
        match_all False EMAIL_REGEX (from_field email @ js '' '' @ body email)))))"
proof -
  let ?sm = "match_all False EMAIL_REGEX (from_field email)"
  let ?em = "match_all False EMAIL_REGEX (from_field email @ js '' '' @ body email)"
  have a0: "(case ?sm of [] \<Rightarrow> [] | s # ss \<Rightarrow> set_add [] (toLowerCase s)) = map toLowerCase (take 1 ?sm)"
    by (cases ?sm) (simp_all add: set_add_def)
  have "extractAttendees email = foldl set_add (map toLowerCase (take 1 ?sm)) (map toLowerCase ?em)"
    by (simp add: extractAttendees_def Let_def a0 foldl_map)
  also have "\<dots> = rev (remdups (rev (map toLowerCase (take 1 ?sm) @ map toLowerCase ?em)))"
    by (rule foldl_set_add) (cases ?sm, simp_all)
  finally show ?thesis by simp
qed

lemma extractAttendees_sender_first_deduplicated:
  "extractAttendees email =
     rev (remdups (rev (map toLowerCase
       (take 1 (match_all False EMAIL_REGEX (from_field email)) @
        match_all False EMAIL_REGEX (from_field email @ js '' '' @ body email))))) \<and>
   distinct (extractAttendees email) \<and>
   set (extractAttendees email) =
     toLowerCase ` (set (take 1 (match_all False EMAIL_REGEX (from_field email))) \<union>
                    set (match_all False EMAIL_REGEX (from_field email @ js '' '' @ body email))) \<and>
   take 1 (extractAttendees email) =
     take 1 (map toLowerCase
       (take 1 (match_all False EMAIL_REGEX (from_field email)) @
        match_all False EMAIL_REGEX (from_field email @ js '' '' @ body email)))"
proof -
  let ?all = "map toLowerCase
       (take 1 (match_all False EMAIL_REGEX (from_field email)) @
        match_all False EMAIL_REGEX (from_field email @ js '' '' @ body email))"
  have eq: "extractAttendees email = rev (remdups (rev ?all))"
    by (rule extractAttendees_eq)
  have s: "set ?all =
     toLowerCase ` (set (take 1 (match_all False EMAIL_REGEX (from_field email))) \<union>
                    set (match_all False EMAIL_REGEX (from_field email @ js '' '' @ body email)))"
    by (simp only: set_map set_append)
  have "distinct (extractAttendees email)"
    unfolding eq by (rule first_occurrences)
  moreover have "set (extractAttendees email) = set ?all"
    unfolding eq by (rule first_occurrences)
  moreover have "take 1 (extractAttendees email) = take 1 ?all"
    unfolding eq by (rule first_occurrences)
  ultimately show ?thesis
    using eq s by (simp only: simp_thms)
qed

lemma extractCalendarEvent_attendees:
  "extractCalendarEvent h email = Inr (Some ev) \<Longrightarrow> attendees ev = extractAttendees email"
  by (drule extractCalendarEvent_Some) auto

text \<open>
  C6, as stated, fails: an address in the subject is not an attendee.
\<close>

theorem address_in_subject_counterexample:
  "match_all False EMAIL_REGEX (subject_body subject_address_email) = [js ''bob@x.io''] \<and>
   map_option attendees (returned_event (extractCalendarEvent example_host subject_address_email)) =
     Some [js ''a@b.io'']"
  by code_simp

text \<open>
  C6, amended: for every email for which \<open>extractCalendarEvent\<close> returns an event, the
  attendees are the address-shaped tokens of the sender field and of the text made of the
  sender field, a space and the body (the subject is not read), lowercased, without
  duplicates and in the order of their first occurrence; the first address of the sender
  field, when there is one, comes first.  (\<open>rev (remdups (rev xs))\<close> keeps the first
  occurrence of every element of \<open>xs\<close>.)
\<close>

theorem attendees_sender_first_deduplicated:
  assumes "extractCalendarEvent h email = Inr (Some ev)"
  shows "attendees ev =
     rev (remdups (rev (map toLowerCase
       (take 1 (match_all False EMAIL_REGEX (from_field email)) @
        match_all False EMAIL_REGEX (from_field email @ js '' '' @ body email))))) \<and>
   distinct (attendees ev) \<and>
   set (attendees ev) =
     toLowerCase ` (set (take 1 (match_all False EMAIL_REGEX (from_field email))) \<union>
                    set (match_all False EMAIL_REGEX (from_field email @ js '' '' @ body email))) \<and>
   take 1 (attendees ev) =
     take 1 (map toLowerCase
       (take 1 (match_all False EMAIL_REGEX (from_field email)) @
        match_all False EMAIL_REGEX (from_field email @ js '' '' @ body email)))"
  unfolding extractCalendarEvent_attendees [OF assms]
  by (rule extractAttendees_sender_first_deduplicated)

theorem attendees_sender_first_deduplicated_witness:
  "map_option attendees (returned_event (extractCalendarEvent example_host meeting_email)) =
     Some [js ''ann@acme.com'', js ''bob@acme.com'']"
proof -
  have "returned_event (extractCalendarEvent example_host meeting_email) \<noteq> None"
    by code_simp
  then obtain ev where ev: "returned_event (extractCalendarEvent example_host meeting_email) = Some ev"
    by blast
  note t = attendees_sender_first_deduplicated [OF returned_eventD [OF ev]]
  from t have e: "attendees ev =
     rev (remdups (rev (map toLowerCase
       (take 1 (match_all False EMAIL_REGEX (from_field meeting_email)) @
        match_all False EMAIL_REGEX (from_field meeting_email @ js '' '' @ body meeting_email)))))"
    by (rule conjunct1)
  have v: "rev (remdups (rev (map toLowerCase
       (take 1 (match_all False EMAIL_REGEX (from_field meeting_email)) @
        match_all False EMAIL_REGEX (from_field meeting_email @ js '' '' @ body meeting_email))))) =
     [js ''ann@acme.com'', js ''bob@acme.com'']"
    by code_simp
  from e v have "attendees ev = [js ''ann@acme.com'', js ''bob@acme.com'']"
    by (rule trans)
  with ev show ?thesis by simp
qed

text \<open>
  C8, as stated, fails: the recognizer reads the text relative to the clock, which each run
  reads anew.  The same email, processed an hour later, gets another date.
\<close>

theorem rerun_later_counterexample:
  "map_option date (returned_event (extractCalendarEvent example_host meeting_email)) =
     Some (js ''2023-11-15T22:13:20.000Z'') \<and>
   map_option date (returned_event (extractCalendarEvent later_host meeting_email)) =
     Some (js ''2023-11-15T23:13:20.000Z'')"
  by code_simp

text \<open>
  C8, amended: two runs of \<open>extractCalendarEvent\<close> on the same email that return events
  yield the same title, location and attendees; they yield the same date and endDate
  whenever the recognizer returns the same candidates in both runs (as it does for the
  same clock reading).  Nothing here depends on the clock readings and random string of
  the serializer.
\<close>

theorem extraction_deterministic_given_candidates:
  assumes "extractCalendarEvent h1 email = Inr (Some ev1)"
      and "extractCalendarEvent h2 email = Inr (Some ev2)"
  shows "title ev1 = title ev2 \<and> location ev1 = location ev2 \<and> attendees ev1 = attendees ev2 \<and>
         (chrono_parse h1 (subject_body email) (clock_extract h1) =
          chrono_parse h2 (subject_body email) (clock_extract h2) \<longrightarrow>
            date ev1 = date ev2 \<and> endDate ev1 = endDate ev2)"
proof -
  from extractCalendarEvent_Some [OF assms(1)] obtain p1 o1 d1 e1 i1 where
    1: "chrono_parse h1 (subject_body email) (clock_extract h1) = p1 # o1"
       "toISOString (p_start p1) = Inr d1"
       "toISOString
             (if o1 \<noteq> [] \<and> p_end p1 \<noteq> None then the (p_end p1)
              else (case p_start p1 of None \<Rightarrow> None
                    | Some t \<Rightarrow> time_clip (t + extractDuration (subject_body email) * 60 * 1000)))
             = Inr e1"
       "ev1 = \<lparr>title = extractTitle email (subject_body email), date = d1,
                 endDate = Some e1, location = extractLocation (subject_body email),
                 attendees = extractAttendees email,
                 description = Some (js ''From: '' @ from_field email @ [10, 10] @
                                     substring 0 500 (body email)),
                 icsContent = Some i1\<rparr>"
    by blast
  from extractCalendarEvent_Some [OF assms(2)] obtain p2 o2 d2 e2 i2 where
    2: "chrono_parse h2 (subject_body email) (clock_extract h2) = p2 # o2"
       "toISOString (p_start p2) = Inr d2"
       "toISOString
             (if o2 \<noteq> [] \<and> p_end p2 \<noteq> None then the (p_end p2)
              else (case p_start p2 of None \<Rightarrow> None
                    | Some t \<Rightarrow> time_clip (t + extractDuration (subject_body email) * 60 * 1000)))
             = Inr e2"
       "ev2 = \<lparr>title = extractTitle email (subject_body email), date = d2,
                 endDate = Some e2, location = extractLocation (subject_body email),
                 attendees = extractAttendees email,
                 description = Some (js ''From: '' @ from_field email @ [10, 10] @
                                     substring 0 500 (body email)),
                 icsContent = Some i2\<rparr>"
    by blast
  have "title ev1 = title ev2 \<and> location ev1 = location ev2 \<and> attendees ev1 = attendees ev2"
    using 1(4) 2(4) by simp
  moreover have "date ev1 = date ev2 \<and> endDate ev1 = endDate ev2"
    if "chrono_parse h1 (subject_body email) (clock_extract h1) =
        chrono_parse h2 (subject_body email) (clock_extract h2)"
  proof -
    from that 1(1) 2(1) have eq: "p2 = p1" "o2 = o1" by simp_all
    from 2(2) 1(2) have "d1 = d2" unfolding eq by simp
    moreover from 2(3) 1(3) have "e1 = e2" unfolding eq by simp
    ultimately show ?thesis using 1(4) 2(4) by simp
  qed
  ultimately show ?thesis by blast
qed

theorem extraction_deterministic_given_candidates_witness:
  "map_option title (returned_event (extractCalendarEvent example_host meeting_email)) =
     map_option title (returned_event (extractCalendarEvent rerun_host meeting_email)) \<and>
   map_option date (returned_event (extractCalendarEvent example_host meeting_email)) =
     map_option date (returned_event (extractCalendarEvent rerun_host meeting_email)) \<and>
   map_option endDate (returned_event (extractCalendarEvent example_host meeting_email)) =
     map_option endDate (returned_event (extractCalendarEvent rerun_host meeting_email)) \<and>
   map_option location (returned_event (extractCalendarEvent example_host meeting_email)) =
     map_option location (returned_event (extractCalendarEvent rerun_host meeting_email)) \<and>
   map_option attendees (returned_event (extractCalendarEvent example_host meeting_email)) =
     map_option attendees (returned_event (extractCalendarEvent rerun_host meeting_email)) \<and>
   returned_event (extractCalendarEvent example_host meeting_email) \<noteq> None \<and>
   returned_event (extractCalendarEvent example_host meeting_email) \<noteq>
     returned_event (extractCalendarEvent rerun_host meeting_email)"
proof -
  have n1: "returned_event (extractCalendarEvent example_host meeting_email) \<noteq> None"
    by code_simp
  then obtain ev1 where
    ev1: "returned_event (extractCalendarEvent example_host meeting_email) = Some ev1"
    by blast
  have "returned_event (extractCalendarEvent rerun_host meeting_email) \<noteq> None"
    by code_simp
  then obtain ev2 where
    ev2: "returned_event (extractCalendarEvent rerun_host meeting_email) = Some ev2"
    by blast
  have c: "chrono_parse example_host (subject_body meeting_email) (clock_extract example_host) =
           chrono_parse rerun_host (subject_body meeting_email) (clock_extract rerun_host)"
    by code_simp
  have d: "returned_event (extractCalendarEvent example_host meeting_email) \<noteq>
           returned_event (extractCalendarEvent rerun_host meeting_email)"
    by code_simp
  from extraction_deterministic_given_candidates
         [OF returned_eventD [OF ev1] returned_eventD [OF ev2]] c
  have "title ev1 = title ev2 \<and> location ev1 = location ev2 \<and> attendees ev1 = attendees ev2 \<and>
        date ev1 = date ev2 \<and> endDate ev1 = endDate ev2"
    by blast
  with n1 d show ?thesis unfolding ev1 ev2 by simp
qed

subsection \<open>ICS serializer\<close>




















lemma starts_with_js_Nil: "starts_with x (js []) = True"
  by (simp add: js_def)





subsection \<open>Tone heuristic\<close>



subsection \<open>Master orchestrator\<close>

text \<open>
  C3: when the spam scorer reports spam, the result of \<open>processEmail\<close> has a null reply
  and an empty summary, its action log holds "Reply skipped (spam detected)" and
  "Spam detected (score=...)" with the score, and the reply generator is not among the
  agents invoked; and a reply that is not null means that the scorer did not report spam.
\<close>

theorem processEmail_spam_gate:
  "(isSpam (spam_run env email) \<longrightarrow>
      suggested_reply (fst (processEmail env email)) = None \<and>
      result_summary (fst (processEmail env email)) = [] \<and>
      js ''Reply skipped (spam detected)'' \<in> set (actions_taken (fst (processEmail env email))) \<and>
      js ''Spam detected (score='' @ show_score env (score (spam_run env email)) @ js '')''
        \<in> set (actions_taken (fst (processEmail env email))) \<and>
      ReplyGenerator \<notin> set (snd (processEmail env email))) \<and>
   (suggested_reply (fst (processEmail env email)) \<noteq> None \<longrightarrow> \<not> isSpam (spam_run env email))"
  by (simp add: processEmail_def Let_def phase1_agents_def)

theorem processEmail_spam_gate_witness:
  "isSpam (spam_run example_env phishing_email) \<and>
   suggested_reply (fst (processEmail example_env phishing_email)) = None \<and>
   result_summary (fst (processEmail example_env phishing_email)) = [] \<and>
   js ''Reply skipped (spam detected)'' \<in> set (actions_taken (fst (processEmail example_env phishing_email))) \<and>
   js ''Spam detected (score='' @ js ''0.75'' @ js '')''
     \<in> set (actions_taken (fst (processEmail example_env phishing_email))) \<and>
   ReplyGenerator \<notin> set (snd (processEmail example_env phishing_email))"
proof -
  have "isSpam (spam_run example_env phishing_email)"
    by code_simp
  moreover have "show_score example_env (score (spam_run example_env phishing_email)) = js ''0.75''"
    by (simp add: example_env_def)
  ultimately show ?thesis
    using processEmail_spam_gate [of example_env phishing_email] by simp
qed

text \<open>
  C7: the priority of the result is low when spam was detected; otherwise high when a
  calendar event was extracted or urgent keywords are present; otherwise low when
  newsletter keywords are present; otherwise medium.
\<close>

theorem processEmail_priority:
  "priority (fst (processEmail env email)) =
     (if isSpam (spam_run env email) then Low
      else if calendar_run env email \<noteq> None \<or> urgent_keywords_present env email then High
      else if newsletter_keywords_present env email then Low
      else Medium)"
  by (simp add: processEmail_def Let_def derive_priority_def)

theorem processEmail_priority_witness:
  "priority (fst (processEmail example_env phishing_email)) = Low \<and>
   priority (fst (processEmail example_env meeting_email)) = High \<and>
   priority (fst (processEmail example_env newsletter_email)) = Low \<and>
   priority (fst (processEmail example_env formal_email)) = Medium"
proof -
  have "isSpam (spam_run example_env phishing_email)"
    "\<not> isSpam (spam_run example_env meeting_email)"
    "calendar_run example_env meeting_email \<noteq> None"
    "\<not> isSpam (spam_run example_env newsletter_email)"
    "calendar_run example_env newsletter_email = None"
    "\<not> urgent_keywords_present example_env newsletter_email"
    "newsletter_keywords_present example_env newsletter_email"
    "\<not> isSpam (spam_run example_env formal_email)"
    "calendar_run example_env formal_email = None"
    "\<not> urgent_keywords_present example_env formal_email"
    "\<not> newsletter_keywords_present example_env formal_email"
    by code_simp+
  with processEmail_priority [of example_env phishing_email]
    processEmail_priority [of example_env meeting_email]
    processEmail_priority [of example_env newsletter_email]
    processEmail_priority [of example_env formal_email]
  show ?thesis by simp
qed

end
